theory Spec2Isabelle
  imports Complex_Main "HOL-Library.Sublist"
begin

section \<open>Data model\<close>

text \<open>
  The \<^verbatim>\<open>Product\<close> type of \<^verbatim>\<open>App.tsx\<close>. The three stock fields are JavaScript numbers
  holding integers; they are signed here, since nothing in the code rejects a negative
  value. Prices are the decimal amounts that the stored JSON text holds, as rationals;
  where a computation depends on the rounding of JavaScript numbers it goes through
  \<open>toDouble\<close> below. The field \<^verbatim>\<open>id\<close> is called \<open>id_field\<close>, because \<open>id\<close> is the
  identity function of HOL.
\<close>

record Product =
  id_field :: string
  name :: string
  description :: string
  category :: string
  brand :: string
  sku :: string
  barcode :: "string option"
  current_stock :: int
  min_stock_level :: int
  max_stock_level :: int
  cost_price :: rat
  selling_price :: rat
  supplier :: string
  location :: string
  created_at :: string
  updated_at :: string

text \<open>A catalog entry with the given id, category, stock fields and cost price; the
  descriptive fields are fixed. Used for concrete catalogs only.\<close>

definition sample :: "string \<Rightarrow> string \<Rightarrow> int \<Rightarrow> int \<Rightarrow> int \<Rightarrow> rat \<Rightarrow> Product" where
  "sample i c cur mn mx cost =
     \<lparr> id_field = i, name = ''item'', description = '''', category = c, brand = '''',
       sku = '''', barcode = None, current_stock = cur, min_stock_level = mn,
       max_stock_level = mx, cost_price = cost, selling_price = cost, supplier = '''',
       location = '''', created_at = ''t0'', updated_at = ''t0'' \<rparr>"

text \<open>The ids, categories, stock fields and cost prices of the five default products
  that \<^verbatim>\<open>initializeData\<close> stores on first load.\<close>

definition defaultProducts :: "Product list" where
  "defaultProducts =
     [sample ''1'' ''Tools'' 25 10 50 (25 / 2),
      sample ''2'' ''Tools'' 5 15 40 8,
      sample ''3'' ''Electrical'' 0 20 100 (7 / 2),
      sample ''4'' ''Plumbing'' 8 10 30 15,
      sample ''5'' ''Paint & Supplies'' 35 20 60 18]"

text \<open>A catalog with two categories that differ in case only, and three categories of
  one product each.\<close>

definition tieCatalog :: "Product list" where
  "tieCatalog =
     [sample ''1'' ''tools'' 1 1 1 1,
      sample ''2'' ''Paint'' 1 1 1 1,
      sample ''3'' ''Garden'' 1 1 1 1,
      sample ''4'' ''Garden'' 1 1 1 1,
      sample ''5'' ''Tools'' 1 1 1 1]"

section \<open>JavaScript numbers\<close>

text \<open>
  A JavaScript number is an IEEE 754 binary64 value, and every arithmetic operation
  rounds its exact result to the nearest such value, ties to the even significand.
  \<open>toDouble x\<close> is that rounding of the rational \<open>x\<close>: with \<open>exponent x\<close> the
  integer \<open>t\<close> such that \<open>2^t \<le> |x| < 2^(t+1)\<close>, the result is the multiple of
  \<open>2^e\<close> nearest to \<open>x\<close>, where \<open>e = max (t - 52) (- 1074)\<close> (53 significant bits,
  subnormal numbers below \<open>2^(- 1022)\<close>). \<open>None\<close> stands for a result that is not a
  finite number (an infinity after overflow, or NaN); an operation on such a value gives
  such a value again.
\<close>

function ilog2 :: "int \<Rightarrow> int" where
  "ilog2 n = (if n < 2 then 0 else 1 + ilog2 (n div 2))"
  by pat_completeness auto
termination
  by (relation "measure nat") auto

declare ilog2.simps [simp del]

definition exponent :: "rat \<Rightarrow> int" where
  "exponent x =
     (let a = \<bar>x\<bar> in
      if 1 \<le> a then ilog2 \<lfloor>a\<rfloor>
      else (let y = 1 / a; l = ilog2 \<lfloor>y\<rfloor>
            in if y = 2 powi l then - l else - l - 1))"

definition roundHalfEven :: "rat \<Rightarrow> int" where
  "roundHalfEven y =
     (let f = \<lfloor>y\<rfloor>; r = y - of_int f
      in if r < 1 / 2 then f
         else if 1 / 2 < r then f + 1
         else if even f then f else f + 1)"

definition toDouble :: "rat \<Rightarrow> rat option" where
  "toDouble x =
     (if x = 0 then Some 0
      else (let e = max (exponent x - 52) (- 1074);
                r = of_int (roundHalfEven (x / 2 powi e)) * 2 powi e
            in if 2 ^ 1024 \<le> \<bar>r\<bar> then None else Some r))"

text \<open>The operators \<^verbatim>\<open>*\<close> and \<^verbatim>\<open>+\<close> on numbers.\<close>

definition dmul :: "rat option \<Rightarrow> rat option \<Rightarrow> rat option" where
  "dmul a b = (case (a, b) of (Some x, Some y) \<Rightarrow> toDouble (x * y) | _ \<Rightarrow> None)"

definition dadd :: "rat option \<Rightarrow> rat option \<Rightarrow> rat option" where
  "dadd a b = (case (a, b) of (Some x, Some y) \<Rightarrow> toDouble (x + y) | _ \<Rightarrow> None)"

section \<open>Stock classification (ViewInventory, Dashboard.tsx, Reports.tsx)\<close>

text \<open>
  \<^verbatim>\<open>getStockStatus\<close> of the inventory view classifies a product: it tries
  \<^verbatim>\<open>product.current_stock === 0\<close>, then
  \<^verbatim>\<open>product.current_stock <= product.min_stock_level\<close>, and returns the status with
  its colour classes and its label.
\<close>

record StockStatusInfo =
  status :: string
  color :: string
  label :: string

definition getStockStatus :: "Product \<Rightarrow> StockStatusInfo" where
  "getStockStatus product =
     (if current_stock product = 0 then
        \<lparr> status = ''out'', color = ''bg-red-100 text-red-800'', label = ''Out of Stock'' \<rparr>
      else if current_stock product \<le> min_stock_level product then
        \<lparr> status = ''low'', color = ''bg-yellow-100 text-yellow-800'', label = ''Low Stock'' \<rparr>
      else
        \<lparr> status = ''good'', color = ''bg-green-100 text-green-800'', label = ''In Stock'' \<rparr>)"

text \<open>
  The dashboard and the reports count with filter predicates:
  \<^verbatim>\<open>p.current_stock <= p.min_stock_level && p.current_stock > 0\<close> (low stock),
  \<^verbatim>\<open>p.current_stock === 0\<close> (out of stock) and
  \<^verbatim>\<open>p.current_stock > p.min_stock_level\<close> (good stock, Reports.tsx only).
\<close>

definition isLowStock :: "Product \<Rightarrow> bool" where
  "isLowStock p = (current_stock p \<le> min_stock_level p \<and> current_stock p > 0)"

definition isOutOfStock :: "Product \<Rightarrow> bool" where
  "isOutOfStock p = (current_stock p = 0)"


text \<open>The classification in the words of the specification: three states, tried in
  precedence order. It is compared with \<open>getStockStatus\<close> below.\<close>

datatype StockStatus = OUT_OF_STOCK | LOW_STOCK | IN_STOCK

definition classify_spec :: "Product \<Rightarrow> StockStatus" where
  "classify_spec p =
     (if current_stock p = 0 then OUT_OF_STOCK
      else if 0 < current_stock p \<and> current_stock p \<le> min_stock_level p then LOW_STOCK
      else IN_STOCK)"

section \<open>Restock suggestion (Restock.tsx)\<close>

record RestockItem =
  product_r :: Product
  suggestedQuantity :: int
  actualQuantity :: int

text \<open>The function mapped over the fetched products in \<^verbatim>\<open>fetchRestockData\<close>.\<close>

definition restockItem :: "Product \<Rightarrow> RestockItem" where
  "restockItem p =
     (let suggested = max (max_stock_level p - current_stock p)
                          (min_stock_level p - current_stock p)
      in \<lparr> product_r = p,
           suggestedQuantity = max suggested 10,
           actualQuantity = (if suggested > 0 then suggested else 10) \<rparr>)"

definition fetchRestockData :: "Product list \<Rightarrow> RestockItem list" where
  "fetchRestockData products = map restockItem products"

text \<open>\<^verbatim>\<open>updateQuantity\<close>: the item of the given product gets the requested quantity,
  clamped with \<^verbatim>\<open>Math.max(0, quantity)\<close>; the other items are kept.\<close>

definition updateQuantity :: "string \<Rightarrow> int \<Rightarrow> RestockItem list \<Rightarrow> RestockItem list" where
  "updateQuantity productId quantity items =
     map (\<lambda>item. if id_field (product_r item) = productId
                  then item\<lparr> actualQuantity := max 0 quantity \<rparr>
                  else item) items"

section \<open>Dashboard (Dashboard.tsx)\<close>

text \<open>The list shown as low-stock alerts in \<^verbatim>\<open>fetchDashboardData\<close>:
  \<^verbatim>\<open>products.filter(p => p.current_stock <= p.min_stock_level && p.current_stock > 0).slice(0, 5)\<close>.\<close>

definition lowStock :: "Product list \<Rightarrow> Product list" where
  "lowStock products = take 5 (filter isLowStock products)"

text \<open>
  The total inventory value of \<^verbatim>\<open>fetchDashboardData\<close> and \<^verbatim>\<open>fetchReportData\<close>:
  \<^verbatim>\<open>products.reduce((sum, p) => sum + (p.current_stock * p.cost_price), 0)\<close>, on
  numbers. The stock and the price of a product are the numbers that \<^verbatim>\<open>JSON.parse\<close>
  reads from the stored decimal text.
\<close>

definition totalValue :: "Product list \<Rightarrow> rat option" where
  "totalValue products =
     foldl (\<lambda>sum p. dadd sum (dmul (toDouble (of_int (current_stock p)))
                                     (toDouble (cost_price p))))
       (Some 0) products"

text \<open>Two products whose prices are not binary fractions.\<close>

definition driftCatalog :: "Product list" where
  "driftCatalog =
     [sample ''1'' ''Tools'' 8933607 10 50 (825461797 / 100),
      sample ''2'' ''Tools'' 641 10 50 (8551 / 100)]"

text \<open>Two products with prices in cents.\<close>

definition centCatalog :: "Product list" where
  "centCatalog =
     [sample ''1'' ''Tools'' 3 1 5 (1 / 10),
      sample ''2'' ''Tools'' 7 1 9 (2499 / 100)]"

text \<open>A catalog with six low-stock products, one of them at its minimum level.\<close>

definition alertCatalog :: "Product list" where
  "alertCatalog =
     [sample ''1'' ''Tools'' 5 15 40 1,
      sample ''2'' ''Tools'' 25 10 50 1,
      sample ''3'' ''Tools'' 0 20 100 1,
      sample ''4'' ''Tools'' 10 10 30 1,
      sample ''5'' ''Tools'' 1 2 30 1,
      sample ''6'' ''Tools'' 2 2 30 1,
      sample ''7'' ''Tools'' 3 9 30 1,
      sample ''8'' ''Tools'' 4 9 30 1]"

section \<open>Catalog store (lib/localStorage.ts)\<close>

text \<open>
  What is stored is JSON text, and \<^verbatim>\<open>JSON.parse\<close> returns whatever objects it
  encodes: a field of \<^verbatim>\<open>Product\<close> may be missing from a stored object, and then reads
  as \<^verbatim>\<open>undefined\<close>, which is \<open>None\<close> here. \<open>toObject\<close> is the object of a product
  with all its fields.
\<close>

record ProductObject =
  o_id :: "string option"
  o_name :: "string option"
  o_description :: "string option"
  o_category :: "string option"
  o_brand :: "string option"
  o_sku :: "string option"
  o_barcode :: "string option"
  o_current_stock :: "int option"
  o_min_stock_level :: "int option"
  o_max_stock_level :: "int option"
  o_cost_price :: "rat option"
  o_selling_price :: "rat option"
  o_supplier :: "string option"
  o_location :: "string option"
  o_created_at :: "string option"
  o_updated_at :: "string option"

definition toObject :: "Product \<Rightarrow> ProductObject" where
  "toObject p =
     \<lparr> o_id = Some (id_field p), o_name = Some (name p),
       o_description = Some (description p), o_category = Some (category p),
       o_brand = Some (brand p), o_sku = Some (sku p), o_barcode = barcode p,
       o_current_stock = Some (current_stock p),
       o_min_stock_level = Some (min_stock_level p),
       o_max_stock_level = Some (max_stock_level p),
       o_cost_price = Some (cost_price p), o_selling_price = Some (selling_price p),
       o_supplier = Some (supplier p), o_location = Some (location p),
       o_created_at = Some (created_at p), o_updated_at = Some (updated_at p) \<rparr>"

text \<open>
  The state is the value stored under the key \<^verbatim>\<open>stockpile_products\<close>: \<open>None\<close> when the
  key is absent, otherwise the list of objects that the stored JSON text encodes.
  \<^verbatim>\<open>getAll\<close> reads an absent key as the empty list.
\<close>

type_synonym storage = "ProductObject list option"

definition getAll :: "storage \<Rightarrow> ProductObject list" where
  "getAll st = (case st of Some products \<Rightarrow> products | None \<Rightarrow> [])"

text \<open>\<^verbatim>\<open>Array.prototype.findIndex\<close>: the index of the first element that satisfies the
  predicate; JavaScript's -1 is \<open>None\<close>.\<close>

fun findIndex :: "('a \<Rightarrow> bool) \<Rightarrow> 'a list \<Rightarrow> nat option" where
  "findIndex P [] = None"
| "findIndex P (x # xs) = (if P x then Some 0 else map_option Suc (findIndex P xs))"

text \<open>
  \<^verbatim>\<open>Partial<Product>\<close>: a key of the patch is absent, or present with the value
  \<^verbatim>\<open>undefined\<close>, or present with a value of the field's type.
\<close>

datatype 'a patched = Absent | Undefined | Value 'a

record ProductPatch =
  patch_id :: "string patched"
  patch_name :: "string patched"
  patch_description :: "string patched"
  patch_category :: "string patched"
  patch_brand :: "string patched"
  patch_sku :: "string patched"
  patch_barcode :: "string patched"
  patch_current_stock :: "int patched"
  patch_min_stock_level :: "int patched"
  patch_max_stock_level :: "int patched"
  patch_cost_price :: "rat patched"
  patch_selling_price :: "rat patched"
  patch_supplier :: "string patched"
  patch_location :: "string patched"
  patch_created_at :: "string patched"
  patch_updated_at :: "string patched"

text \<open>The empty patch \<^verbatim>\<open>{}\<close>.\<close>

definition noPatch :: ProductPatch where
  "noPatch =
     \<lparr> patch_id = Absent, patch_name = Absent, patch_description = Absent,
       patch_category = Absent, patch_brand = Absent, patch_sku = Absent,
       patch_barcode = Absent, patch_current_stock = Absent,
       patch_min_stock_level = Absent, patch_max_stock_level = Absent,
       patch_cost_price = Absent, patch_selling_price = Absent, patch_supplier = Absent,
       patch_location = Absent, patch_created_at = Absent, patch_updated_at = Absent \<rparr>"

definition orElse :: "'a option \<Rightarrow> 'a \<Rightarrow> 'a" where
  "orElse v d = (case v of Some x \<Rightarrow> x | None \<Rightarrow> d)"

text \<open>
  One key of the object spread \<^verbatim>\<open>{ ...products[index], ...updates }\<close>: a key that the
  patch has replaces the key of the record, also when its value is \<^verbatim>\<open>undefined\<close>;
  the field then reads as \<^verbatim>\<open>undefined\<close>, and \<^verbatim>\<open>JSON.stringify\<close> leaves it out.
\<close>

definition spread :: "'a option \<Rightarrow> 'a patched \<Rightarrow> 'a option" where
  "spread old new = (case new of Absent \<Rightarrow> old | Undefined \<Rightarrow> None | Value v \<Rightarrow> Some v)"

text \<open>\<^verbatim>\<open>{ ...products[index], ...updates, updated_at: new Date().toISOString() }\<close>;
  \<^verbatim>\<open>updated_at\<close> is written last. The time stamp is the parameter \<open>now\<close>.\<close>

definition merge :: "ProductObject \<Rightarrow> ProductPatch \<Rightarrow> string \<Rightarrow> ProductObject" where
  "merge p updates now =
     \<lparr> o_id = spread (o_id p) (patch_id updates),
       o_name = spread (o_name p) (patch_name updates),
       o_description = spread (o_description p) (patch_description updates),
       o_category = spread (o_category p) (patch_category updates),
       o_brand = spread (o_brand p) (patch_brand updates),
       o_sku = spread (o_sku p) (patch_sku updates),
       o_barcode = spread (o_barcode p) (patch_barcode updates),
       o_current_stock = spread (o_current_stock p) (patch_current_stock updates),
       o_min_stock_level = spread (o_min_stock_level p) (patch_min_stock_level updates),
       o_max_stock_level = spread (o_max_stock_level p) (patch_max_stock_level updates),
       o_cost_price = spread (o_cost_price p) (patch_cost_price updates),
       o_selling_price = spread (o_selling_price p) (patch_selling_price updates),
       o_supplier = spread (o_supplier p) (patch_supplier updates),
       o_location = spread (o_location p) (patch_location updates),
       o_created_at = spread (o_created_at p) (patch_created_at updates),
       o_updated_at = Some now \<rparr>"

text \<open>\<^verbatim>\<open>productService.update\<close>: the result (\<open>None\<close> for \<^verbatim>\<open>null\<close>) and the new state.
  \<^verbatim>\<open>p.id === id\<close> is false for an object without an id.\<close>

definition update :: "string \<Rightarrow> ProductPatch \<Rightarrow> string \<Rightarrow> storage \<Rightarrow> ProductObject option \<times> storage" where
  "update i updates now st =
     (let products = getAll st in
      case findIndex (\<lambda>p. o_id p = Some i) products of
        Some index \<Rightarrow>
          (let products' = products[index := merge (products ! index) updates now]
           in (Some (products' ! index), Some products'))
      | None \<Rightarrow> (None, st))"

text \<open>\<^verbatim>\<open>productService.delete\<close>: the boolean result and the new state.\<close>

definition delete :: "string \<Rightarrow> storage \<Rightarrow> bool \<times> storage" where
  "delete i st =
     (let products = getAll st;
          filtered = filter (\<lambda>p. o_id p \<noteq> Some i) products
      in if length filtered \<noteq> length products then (True, Some filtered)
         else (False, st))"

section \<open>Reports (Reports.tsx)\<close>



text \<open>
  A JavaScript \<^verbatim>\<open>Map\<close> keeps its entries in insertion order: the list of entries.
  \<^verbatim>\<open>set\<close> on a key that is present replaces the value where the entry stands, and
  appends a new entry otherwise; \<^verbatim>\<open>get\<close> is the lookup \<open>map_of\<close>. Keys are compared
  as strings, character by character.
\<close>

record CategoryData =
  data_count :: nat
  data_value :: rat

fun mapSet :: "'k \<Rightarrow> 'v \<Rightarrow> ('k \<times> 'v) list \<Rightarrow> ('k \<times> 'v) list" where
  "mapSet k v [] = [(k, v)]"
| "mapSet k v ((k', v') # m) = (if k' = k then (k, v) # m else (k', v') # mapSet k v m)"

text \<open>The body of \<^verbatim>\<open>products.forEach\<close> and the loop itself.\<close>

definition addToCategory :: "(string \<times> CategoryData) list \<Rightarrow> Product \<Rightarrow> (string \<times> CategoryData) list" where
  "addToCategory m product =
     (let existing = orElse (map_of m (category product)) \<lparr> data_count = 0, data_value = 0 \<rparr>
      in mapSet (category product)
           \<lparr> data_count = data_count existing + 1,
             data_value = data_value existing + of_int (current_stock product) * cost_price product \<rparr>
           m)"

definition categoryMap :: "Product list \<Rightarrow> (string \<times> CategoryData) list" where
  "categoryMap products = foldl addToCategory [] products"

record CategoryRow =
  row_category :: string
  row_count :: nat
  row_value :: rat

definition toRow :: "string \<times> CategoryData \<Rightarrow> CategoryRow" where
  "toRow e = \<lparr> row_category = fst e, row_count = data_count (snd e), row_value = data_value (snd e) \<rparr>"

text \<open>
  \<^verbatim>\<open>Array.prototype.sort\<close> with a comparison function. ECMAScript (since 2019) requires
  the sort to be stable and leaves the algorithm open; the model inserts each element
  before the first one it does not come after (\<open>cmp x y \<le> 0\<close>), from the last element
  to the first, which is stable.
\<close>

fun insertBy :: "('a \<Rightarrow> 'a \<Rightarrow> int) \<Rightarrow> 'a \<Rightarrow> 'a list \<Rightarrow> 'a list" where
  "insertBy cmp x [] = [x]"
| "insertBy cmp x (y # ys) = (if cmp x y \<le> 0 then x # y # ys else y # insertBy cmp x ys)"

definition arraySort :: "('a \<Rightarrow> 'a \<Rightarrow> int) \<Rightarrow> 'a list \<Rightarrow> 'a list" where
  "arraySort cmp xs = foldr (insertBy cmp) xs []"

text \<open>\<^verbatim>\<open>categoryBreakdown.sort((a, b) => b.count - a.count)\<close> of the rows made from the
  entries of the map.\<close>

definition categoryBreakdown :: "Product list \<Rightarrow> CategoryRow list" where
  "categoryBreakdown products =
     arraySort (\<lambda>a b. int (row_count b) - int (row_count a))
       (map toRow (categoryMap products))"

section \<open>Classification\<close>

text \<open>
  Claim C1: for every product with current_stock >= 0, \<^verbatim>\<open>getStockStatus\<close> assigns
  exactly one of the three states, in precedence order: out of stock exactly when the
  stock is 0, low stock exactly when 0 < stock <= minimum, and in stock (good) in every
  other case, where the stock is above the minimum. It agrees with the classification
  of the specification, and with the out-of-stock and low-stock filters of the
  dashboard and the reports.
\<close>

theorem getStockStatus_classifies:
  assumes "0 \<le> current_stock p"
  shows "(status (getStockStatus p) = ''out'' \<longleftrightarrow> current_stock p = 0)
       \<and> (status (getStockStatus p) = ''low'' \<longleftrightarrow>
            0 < current_stock p \<and> current_stock p \<le> min_stock_level p)
       \<and> (status (getStockStatus p) = ''good'' \<longleftrightarrow>
            current_stock p \<noteq> 0 \<and> \<not> (0 < current_stock p \<and> current_stock p \<le> min_stock_level p))
       \<and> (status (getStockStatus p) = ''good'' \<longleftrightarrow>
            0 < current_stock p \<and> min_stock_level p < current_stock p)
       \<and> (status (getStockStatus p) = ''out'' \<and> label (getStockStatus p) = ''Out of Stock''
          \<or> status (getStockStatus p) = ''low'' \<and> label (getStockStatus p) = ''Low Stock''
          \<or> status (getStockStatus p) = ''good'' \<and> label (getStockStatus p) = ''In Stock'')
       \<and> (classify_spec p = OUT_OF_STOCK \<longleftrightarrow> status (getStockStatus p) = ''out'')
       \<and> (classify_spec p = LOW_STOCK \<longleftrightarrow> status (getStockStatus p) = ''low'')
       \<and> (classify_spec p = IN_STOCK \<longleftrightarrow> status (getStockStatus p) = ''good'')
       \<and> (isOutOfStock p \<longleftrightarrow> status (getStockStatus p) = ''out'')
       \<and> (isLowStock p \<longleftrightarrow> status (getStockStatus p) = ''low'')"
  using assms
  by (auto simp: getStockStatus_def classify_spec_def isOutOfStock_def isLowStock_def)

text \<open>The first three default products are in stock, low and out of stock; a product
  with stock 0 and a negative minimum level is out of stock, and one whose stock equals
  its minimum level is low.\<close>

theorem getStockStatus_classifies_witness:
  "0 \<le> current_stock (sample ''1'' ''Tools'' 25 10 50 (25 / 2))
   \<and> status (getStockStatus (sample ''1'' ''Tools'' 25 10 50 (25 / 2))) = ''good''
   \<and> 0 \<le> current_stock (sample ''2'' ''Tools'' 5 15 40 8)
   \<and> status (getStockStatus (sample ''2'' ''Tools'' 5 15 40 8)) = ''low''
   \<and> 0 \<le> current_stock (sample ''3'' ''Electrical'' 0 20 100 (7 / 2))
   \<and> status (getStockStatus (sample ''3'' ''Electrical'' 0 20 100 (7 / 2))) = ''out''
   \<and> 0 \<le> current_stock (sample ''6'' ''Tools'' 0 (- 1) 5 1)
   \<and> status (getStockStatus (sample ''6'' ''Tools'' 0 (- 1) 5 1)) = ''out''
   \<and> classify_spec (sample ''6'' ''Tools'' 0 (- 1) 5 1) = OUT_OF_STOCK
   \<and> 0 \<le> current_stock (sample ''7'' ''Tools'' 10 10 30 1)
   \<and> status (getStockStatus (sample ''7'' ''Tools'' 10 10 30 1)) = ''low''"
  using getStockStatus_classifies [of "sample ''1'' ''Tools'' 25 10 50 (25 / 2)"]
    getStockStatus_classifies [of "sample ''2'' ''Tools'' 5 15 40 8"]
    getStockStatus_classifies [of "sample ''3'' ''Electrical'' 0 20 100 (7 / 2)"]
    getStockStatus_classifies [of "sample ''6'' ''Tools'' 0 (- 1) 5 1"]
    getStockStatus_classifies [of "sample ''7'' ''Tools'' 10 10 30 1"]
  by (simp add: sample_def)

section \<open>Restock suggestion\<close>

text \<open>
  Claim C2: for every product the suggested quantity is
  max (max (max_stock_level - current_stock) (min_stock_level - current_stock)) 10,
  and so it is at least 10, whatever the stock fields are.
\<close>

theorem suggestedQuantity_floor:
  "suggestedQuantity (restockItem p) =
     max (max (max_stock_level p - current_stock p) (min_stock_level p - current_stock p)) 10
   \<and> suggestedQuantity (restockItem p) \<ge> 10
   \<and> map suggestedQuantity (fetchRestockData ps) =
       map (\<lambda>p. max (max (max_stock_level p - current_stock p)
                          (min_stock_level p - current_stock p)) 10) ps"
  by (simp add: restockItem_def fetchRestockData_def Let_def)

text \<open>
  Claim C5: with the minimum and maximum levels fixed, the suggested quantity does not
  increase when the current stock increases: for all s1 <= s2, the suggested quantity
  of a product at stock s2 is at most its suggested quantity at stock s1.
\<close>

theorem suggestedQuantity_antimono:
  assumes "s1 \<le> s2"
  shows "suggestedQuantity (restockItem (p\<lparr> current_stock := s2 \<rparr>))
           \<le> suggestedQuantity (restockItem (p\<lparr> current_stock := s1 \<rparr>))"
  using assms by (simp add: restockItem_def Let_def max_def)

theorem suggestedQuantity_antimono_witness:
  "(5::int) \<le> 8
   \<and> suggestedQuantity (restockItem ((sample ''2'' ''Tools'' 0 15 40 8)\<lparr> current_stock := 8 \<rparr>))
       \<le> suggestedQuantity (restockItem ((sample ''2'' ''Tools'' 0 15 40 8)\<lparr> current_stock := 5 \<rparr>))
   \<and> suggestedQuantity (restockItem ((sample ''2'' ''Tools'' 0 15 40 8)\<lparr> current_stock := 5 \<rparr>)) = 35
   \<and> suggestedQuantity (restockItem ((sample ''2'' ''Tools'' 0 15 40 8)\<lparr> current_stock := 8 \<rparr>)) = 32"
  using suggestedQuantity_antimono [of 5 8 "sample ''2'' ''Tools'' 0 15 40 8"]
  by (simp add: sample_def restockItem_def Let_def)

section \<open>Editing the restock quantity\<close>

lemma updateQuantity_nonneg:
  assumes "\<forall>it\<in>set items. 0 \<le> actualQuantity it"
  shows "\<forall>it\<in>set (updateQuantity pid q items). 0 \<le> actualQuantity it"
  using assms by (auto simp: updateQuantity_def)

lemma fetchRestockData_pos: "\<forall>it\<in>set (fetchRestockData ps). 0 < actualQuantity it"
  by (auto simp: fetchRestockData_def restockItem_def Let_def)

lemma requests_nonneg:
  assumes "\<forall>it\<in>set items. 0 \<le> actualQuantity it"
  shows "\<forall>it\<in>set (foldl (\<lambda>its (pid, q). updateQuantity pid q its) items reqs).
           0 \<le> actualQuantity it"
  using assms
proof (induction reqs arbitrary: items)
  case Nil
  then show ?case by simp
next
  case (Cons r reqs)
  obtain pid q where r: "r = (pid, q)" by (cases r)
  from Cons.prems have "\<forall>it\<in>set (updateQuantity pid q items). 0 \<le> actualQuantity it"
    by (rule updateQuantity_nonneg)
  from Cons.IH [OF this] show ?case by (simp add: r)
qed

text \<open>
  Claim C9: \<^verbatim>\<open>updateQuantity\<close> keeps the actual quantity non-negative. The item of the
  product gets max 0 q, which is 0 for every q <= 0 (a decrement from 0 requests -1) and
  q otherwise; the list keeps its length and the other items; if no item was negative
  before, none is after; and from the items built by \<^verbatim>\<open>fetchRestockData\<close>, no sequence
  of update requests makes an actual quantity negative.
\<close>

theorem updateQuantity_saturates:
  "length (updateQuantity pid q items) = length items
   \<and> (\<forall>k < length items.
        updateQuantity pid q items ! k =
          (if id_field (product_r (items ! k)) = pid
           then (items ! k)\<lparr> actualQuantity := max 0 q \<rparr> else items ! k)
        \<and> (id_field (product_r (items ! k)) = pid \<longrightarrow>
             0 \<le> actualQuantity (updateQuantity pid q items ! k)
             \<and> (q \<le> 0 \<longrightarrow> actualQuantity (updateQuantity pid q items ! k) = 0)
             \<and> (0 \<le> q \<longrightarrow> actualQuantity (updateQuantity pid q items ! k) = q)))
   \<and> ((\<forall>it\<in>set items. 0 \<le> actualQuantity it) \<longrightarrow>
        (\<forall>it\<in>set (updateQuantity pid q items). 0 \<le> actualQuantity it))
   \<and> (\<forall>it\<in>set (foldl (\<lambda>its (pid, q). updateQuantity pid q its) (fetchRestockData ps) reqs).
         0 \<le> actualQuantity it)"
proof (intro conjI)
  show "length (updateQuantity pid q items) = length items"
    by (simp add: updateQuantity_def)
  show "\<forall>k < length items.
        updateQuantity pid q items ! k =
          (if id_field (product_r (items ! k)) = pid
           then (items ! k)\<lparr> actualQuantity := max 0 q \<rparr> else items ! k)
        \<and> (id_field (product_r (items ! k)) = pid \<longrightarrow>
             0 \<le> actualQuantity (updateQuantity pid q items ! k)
             \<and> (q \<le> 0 \<longrightarrow> actualQuantity (updateQuantity pid q items ! k) = 0)
             \<and> (0 \<le> q \<longrightarrow> actualQuantity (updateQuantity pid q items ! k) = q))"
    by (simp add: updateQuantity_def max_def)
  show "(\<forall>it\<in>set items. 0 \<le> actualQuantity it) \<longrightarrow>
        (\<forall>it\<in>set (updateQuantity pid q items). 0 \<le> actualQuantity it)"
    using updateQuantity_nonneg by blast
  have "\<forall>it\<in>set (fetchRestockData ps). 0 \<le> actualQuantity it"
    using fetchRestockData_pos [of ps] by force
  then show "\<forall>it\<in>set (foldl (\<lambda>its (pid, q). updateQuantity pid q its) (fetchRestockData ps) reqs).
         0 \<le> actualQuantity it"
    by (rule requests_nonneg)
qed

text \<open>The item of product 3, whose quantity is 0 after a first request, is decremented.\<close>

theorem updateQuantity_saturates_witness:
  "(0::nat) < length (updateQuantity ''3'' 0 (fetchRestockData [sample ''3'' ''Electrical'' 0 20 100 (7 / 2)]))
   \<and> id_field (product_r (updateQuantity ''3'' 0
        (fetchRestockData [sample ''3'' ''Electrical'' 0 20 100 (7 / 2)]) ! 0)) = ''3''
   \<and> actualQuantity (updateQuantity ''3'' 0
        (fetchRestockData [sample ''3'' ''Electrical'' 0 20 100 (7 / 2)]) ! 0) = 0
   \<and> (0 - 1 :: int) \<le> 0
   \<and> actualQuantity (updateQuantity ''3'' (0 - 1) (updateQuantity ''3'' 0
        (fetchRestockData [sample ''3'' ''Electrical'' 0 20 100 (7 / 2)])) ! 0) = 0"
  using updateQuantity_saturates
    [of "''3''" "0 - 1"
        "updateQuantity ''3'' 0 (fetchRestockData [sample ''3'' ''Electrical'' 0 20 100 (7 / 2)])"]
  by (simp add: updateQuantity_def fetchRestockData_def restockItem_def sample_def Let_def)

section \<open>Low-stock alert list\<close>

text \<open>
  Claim C7: the low-stock alert list is the first at-most-5 of the products with
  0 < stock <= minimum, in catalog order. Every product of the list is low on stock;
  the list has at most 5 entries, as many as there are low-stock products when these
  are at most 5; it is a prefix of the low-stock products as they stand in the catalog,
  and so a subsequence of the catalog; and when at most 5 products are low on stock,
  every one of them is in the list.
\<close>

theorem lowStock_alert_list:
  "lowStock ps =
     take 5 (filter (\<lambda>p. 0 < current_stock p \<and> current_stock p \<le> min_stock_level p) ps)
   \<and> (\<forall>p\<in>set (lowStock ps). 0 < current_stock p \<and> current_stock p \<le> min_stock_level p)
   \<and> length (lowStock ps) \<le> 5
   \<and> length (lowStock ps) =
       min 5 (length (filter (\<lambda>p. 0 < current_stock p \<and> current_stock p \<le> min_stock_level p) ps))
   \<and> prefix (lowStock ps)
       (filter (\<lambda>p. 0 < current_stock p \<and> current_stock p \<le> min_stock_level p) ps)
   \<and> subseq (lowStock ps) ps
   \<and> (length (filter (\<lambda>p. 0 < current_stock p \<and> current_stock p \<le> min_stock_level p) ps) \<le> 5
        \<longrightarrow> set (lowStock ps) =
              {p \<in> set ps. 0 < current_stock p \<and> current_stock p \<le> min_stock_level p})"
proof -
  let ?low = "\<lambda>p. 0 < current_stock p \<and> current_stock p \<le> min_stock_level p"
  have "isLowStock p = ?low p" for p
    by (auto simp: isLowStock_def)
  then have "filter isLowStock ps = filter ?low ps"
    by (intro filter_cong) simp_all
  then have eq: "lowStock ps = take 5 (filter ?low ps)"
    by (simp only: lowStock_def)
  have "set (take 5 (filter ?low ps)) \<subseteq> set (filter ?low ps)"
    by (rule set_take_subset)
  then have a: "\<forall>p\<in>set (take 5 (filter ?low ps)). ?low p"
    by auto
  have b: "length (take 5 (filter ?low ps)) = min 5 (length (filter ?low ps))"
    by (simp add: min.commute)
  then have b': "length (take 5 (filter ?low ps)) \<le> 5"
    by simp
  have c: "prefix (take 5 (filter ?low ps)) (filter ?low ps)"
    by (rule take_is_prefix)
  have "subseq (filter ?low ps) ps" by simp
  with c have d: "subseq (take 5 (filter ?low ps)) ps"
    using prefix_imp_subseq subseq_order.order_trans by blast
  have e: "length (filter ?low ps) \<le> 5 \<longrightarrow>
      set (take 5 (filter ?low ps)) = {p \<in> set ps. ?low p}"
    by simp
  show ?thesis
    unfolding eq using a b' b c d e by (intro conjI) (rule refl)
qed

text \<open>In \<open>alertCatalog\<close> six products are low on stock, the fourth of the catalog with a
  stock equal to its minimum level; the list has the first five of them.\<close>

theorem lowStock_alert_list_witness:
  "map id_field (lowStock alertCatalog) = [''1'', ''4'', ''5'', ''6'', ''7'']
   \<and> length (filter (\<lambda>p. 0 < current_stock p \<and> current_stock p \<le> min_stock_level p)
        alertCatalog) = 6
   \<and> sample ''4'' ''Tools'' 10 10 30 1 \<in> set (lowStock alertCatalog)
   \<and> current_stock (sample ''4'' ''Tools'' 10 10 30 1) = min_stock_level (sample ''4'' ''Tools'' 10 10 30 1)
   \<and> map id_field (lowStock defaultProducts) = [''2'', ''4'']"
proof -
  have l: "lowStock alertCatalog =
      take 5 (filter (\<lambda>p. 0 < current_stock p \<and> current_stock p \<le> min_stock_level p) alertCatalog)"
    using lowStock_alert_list [of alertCatalog] by blast
  have f: "filter (\<lambda>p. 0 < current_stock p \<and> current_stock p \<le> min_stock_level p) alertCatalog =
      [sample ''1'' ''Tools'' 5 15 40 1, sample ''4'' ''Tools'' 10 10 30 1,
       sample ''5'' ''Tools'' 1 2 30 1, sample ''6'' ''Tools'' 2 2 30 1,
       sample ''7'' ''Tools'' 3 9 30 1, sample ''8'' ''Tools'' 4 9 30 1]"
    by (simp add: alertCatalog_def sample_def)
  have la: "lowStock alertCatalog =
      [sample ''1'' ''Tools'' 5 15 40 1, sample ''4'' ''Tools'' 10 10 30 1,
       sample ''5'' ''Tools'' 1 2 30 1, sample ''6'' ''Tools'' 2 2 30 1,
       sample ''7'' ''Tools'' 3 9 30 1]"
    by (simp add: l f)
  have d: "lowStock defaultProducts =
      take 5 (filter (\<lambda>p. 0 < current_stock p \<and> current_stock p \<le> min_stock_level p)
        defaultProducts)"
    using lowStock_alert_list [of defaultProducts] by blast
  have fd: "filter (\<lambda>p. 0 < current_stock p \<and> current_stock p \<le> min_stock_level p)
      defaultProducts = [sample ''2'' ''Tools'' 5 15 40 8, sample ''4'' ''Plumbing'' 8 10 30 15]"
    by (simp add: defaultProducts_def sample_def)
  have 1: "map id_field (lowStock alertCatalog) = [''1'', ''4'', ''5'', ''6'', ''7'']"
    by (simp add: la) (simp add: sample_def)
  have 2: "length (filter (\<lambda>p. 0 < current_stock p \<and> current_stock p \<le> min_stock_level p)
        alertCatalog) = 6"
    by (simp add: f)
  have 3: "sample ''4'' ''Tools'' 10 10 30 1 \<in> set (lowStock alertCatalog)"
    by (simp add: la)
  have 4: "current_stock (sample ''4'' ''Tools'' 10 10 30 1)
      = min_stock_level (sample ''4'' ''Tools'' 10 10 30 1)"
    by (simp add: sample_def)
  have 5: "map id_field (lowStock defaultProducts) = [''2'', ''4'']"
    by (simp add: d fd) (simp add: sample_def)
  from 1 2 3 4 5 show ?thesis by blast
qed

section \<open>Catalog store\<close>

lemma findIndex_None: "findIndex P xs = None \<longleftrightarrow> (\<forall>x\<in>set xs. \<not> P x)"
  by (induction xs) auto

lemma findIndex_Some:
  "findIndex P xs = Some k \<Longrightarrow> k < length xs \<and> P (xs ! k) \<and> (\<forall>j<k. \<not> P (xs ! j))"
proof (induction xs arbitrary: k)
  case Nil
  then show ?case by simp
next
  case (Cons x xs)
  show ?case
  proof (cases "P x")
    case True
    with Cons.prems show ?thesis by simp
  next
    case False
    with Cons.prems obtain k' where k': "findIndex P xs = Some k'" "k = Suc k'"
      by auto
    from Cons.IH [OF k'(1)] False k'(2) show ?thesis
      by (auto simp: less_Suc_eq_0_disj)
  qed
qed

lemma length_filter_eq_iff: "length (filter P xs) = length xs \<longleftrightarrow> (\<forall>x\<in>set xs. P x)"
  by (metis filter_True length_filter_less less_irrefl filter_id_conv)

text \<open>
  Claim C8: when no record has the id, \<^verbatim>\<open>delete\<close> returns false and leaves the stored
  catalog as it is (same records, same size). It returns true exactly when a record with
  the id exists; the new catalog is then the old one without the records of that id, in
  the same order, and it is shorter.
\<close>

theorem delete_spec:
  "((\<forall>p\<in>set (getAll st). o_id p \<noteq> Some i) \<longrightarrow> delete i st = (False, st))
   \<and> (fst (delete i st) \<longleftrightarrow> (\<exists>p\<in>set (getAll st). o_id p = Some i))
   \<and> (fst (delete i st) \<longrightarrow>
        getAll (snd (delete i st)) = filter (\<lambda>p. o_id p \<noteq> Some i) (getAll st)
        \<and> (\<forall>p\<in>set (getAll (snd (delete i st))). o_id p \<noteq> Some i)
        \<and> length (getAll (snd (delete i st))) < length (getAll st))
   \<and> (\<not> fst (delete i st) \<longrightarrow>
        snd (delete i st) = st \<and> length (getAll (snd (delete i st))) = length (getAll st))"
  apply (simp add: delete_def Let_def length_filter_eq_iff getAll_def)
  apply (auto simp: length_filter_eq_iff intro: length_filter_less)
  done

theorem delete_spec_witness:
  "Some ''9'' \<notin> set (map o_id (getAll (Some (map toObject defaultProducts))))
   \<and> delete ''9'' (Some (map toObject defaultProducts)) = (False, Some (map toObject defaultProducts))
   \<and> fst (delete ''3'' (Some (map toObject defaultProducts)))
   \<and> length (getAll (snd (delete ''3'' (Some (map toObject defaultProducts))))) = 4
   \<and> map o_id (getAll (snd (delete ''3'' (Some (map toObject defaultProducts))))) =
       [Some ''1'', Some ''2'', Some ''4'', Some ''5'']"
  using delete_spec [of "Some (map toObject defaultProducts)" "''9''"]
    delete_spec [of "Some (map toObject defaultProducts)" "''3''"]
  by (simp add: getAll_def defaultProducts_def sample_def toObject_def)

lemma update_no_match:
  assumes "\<forall>p\<in>set (getAll st). o_id p \<noteq> Some i"
  shows "update i u now st = (None, st)"
proof -
  from assms have "findIndex (\<lambda>p. o_id p = Some i) (getAll st) = None"
    by (simp add: findIndex_None)
  then show ?thesis by (simp add: update_def)
qed

lemma update_match:
  assumes "findIndex (\<lambda>p. o_id p = Some i) (getAll st) = Some k"
  shows "update i u now st =
           (Some (merge (getAll st ! k) u now),
            Some ((getAll st)[k := merge (getAll st ! k) u now]))"
proof -
  from findIndex_Some [OF assms] have "k < length (getAll st)" by simp
  with assms show ?thesis by (simp add: update_def Let_def)
qed

text \<open>Every field of the merged record: the key of the patch when the patch has it,
  the field of the old record otherwise; \<^verbatim>\<open>updated_at\<close> is the time stamp.\<close>

lemma merge_fields:
  "o_id (merge p u now) =
     (case patch_id u of Absent \<Rightarrow> o_id p | Undefined \<Rightarrow> None | Value v \<Rightarrow> Some v)
   \<and> o_name (merge p u now) =
     (case patch_name u of Absent \<Rightarrow> o_name p | Undefined \<Rightarrow> None | Value v \<Rightarrow> Some v)
   \<and> o_description (merge p u now) =
     (case patch_description u of Absent \<Rightarrow> o_description p | Undefined \<Rightarrow> None
      | Value v \<Rightarrow> Some v)
   \<and> o_category (merge p u now) =
     (case patch_category u of Absent \<Rightarrow> o_category p | Undefined \<Rightarrow> None | Value v \<Rightarrow> Some v)
   \<and> o_brand (merge p u now) =
     (case patch_brand u of Absent \<Rightarrow> o_brand p | Undefined \<Rightarrow> None | Value v \<Rightarrow> Some v)
   \<and> o_sku (merge p u now) =
     (case patch_sku u of Absent \<Rightarrow> o_sku p | Undefined \<Rightarrow> None | Value v \<Rightarrow> Some v)
   \<and> o_barcode (merge p u now) =
     (case patch_barcode u of Absent \<Rightarrow> o_barcode p | Undefined \<Rightarrow> None | Value v \<Rightarrow> Some v)
   \<and> o_current_stock (merge p u now) =
     (case patch_current_stock u of Absent \<Rightarrow> o_current_stock p | Undefined \<Rightarrow> None
      | Value v \<Rightarrow> Some v)
   \<and> o_min_stock_level (merge p u now) =
     (case patch_min_stock_level u of Absent \<Rightarrow> o_min_stock_level p | Undefined \<Rightarrow> None
      | Value v \<Rightarrow> Some v)
   \<and> o_max_stock_level (merge p u now) =
     (case patch_max_stock_level u of Absent \<Rightarrow> o_max_stock_level p | Undefined \<Rightarrow> None
      | Value v \<Rightarrow> Some v)
   \<and> o_cost_price (merge p u now) =
     (case patch_cost_price u of Absent \<Rightarrow> o_cost_price p | Undefined \<Rightarrow> None
      | Value v \<Rightarrow> Some v)
   \<and> o_selling_price (merge p u now) =
     (case patch_selling_price u of Absent \<Rightarrow> o_selling_price p | Undefined \<Rightarrow> None
      | Value v \<Rightarrow> Some v)
   \<and> o_supplier (merge p u now) =
     (case patch_supplier u of Absent \<Rightarrow> o_supplier p | Undefined \<Rightarrow> None | Value v \<Rightarrow> Some v)
   \<and> o_location (merge p u now) =
     (case patch_location u of Absent \<Rightarrow> o_location p | Undefined \<Rightarrow> None | Value v \<Rightarrow> Some v)
   \<and> o_created_at (merge p u now) =
     (case patch_created_at u of Absent \<Rightarrow> o_created_at p | Undefined \<Rightarrow> None
      | Value v \<Rightarrow> Some v)
   \<and> o_updated_at (merge p u now) = Some now"
  by (simp add: merge_def spread_def)

text \<open>
  Claim C10: \<^verbatim>\<open>update\<close> on an id that some record has returns the merged record and
  changes the stored catalog at one position only, the first one with that id. The
  record there gets, for every field, the key of the patch when the patch has that key
  and keeps its own field otherwise, and its \<^verbatim>\<open>updated_at\<close> is refreshed; the length
  of the catalog and the record at every other position are as before. When no record
  has the id, it returns null and the stored catalog is unchanged.
\<close>

theorem update_frame:
  "((\<forall>p\<in>set (getAll st). o_id p \<noteq> Some i) \<longrightarrow> update i u now st = (None, st))
   \<and> ((\<exists>p\<in>set (getAll st). o_id p = Some i) \<longrightarrow>
        (\<exists>k < length (getAll st). \<exists>r.
           o_id (getAll st ! k) = Some i
         \<and> (\<forall>j<k. o_id (getAll st ! j) \<noteq> Some i)
         \<and> fst (update i u now st) = Some r
         \<and> r = merge (getAll st ! k) u now
         \<and> length (getAll (snd (update i u now st))) = length (getAll st)
         \<and> getAll (snd (update i u now st)) ! k = r
         \<and> (\<forall>j < length (getAll st). j \<noteq> k \<longrightarrow>
               getAll (snd (update i u now st)) ! j = getAll st ! j)
         \<and> o_id r = (case patch_id u of Absent \<Rightarrow> o_id (getAll st ! k)
                       | Undefined \<Rightarrow> None | Value v \<Rightarrow> Some v)
         \<and> o_name r = (case patch_name u of Absent \<Rightarrow> o_name (getAll st ! k)
                       | Undefined \<Rightarrow> None | Value v \<Rightarrow> Some v)
         \<and> o_description r = (case patch_description u of
                         Absent \<Rightarrow> o_description (getAll st ! k)
                       | Undefined \<Rightarrow> None | Value v \<Rightarrow> Some v)
         \<and> o_category r = (case patch_category u of Absent \<Rightarrow> o_category (getAll st ! k)
                       | Undefined \<Rightarrow> None | Value v \<Rightarrow> Some v)
         \<and> o_brand r = (case patch_brand u of Absent \<Rightarrow> o_brand (getAll st ! k)
                       | Undefined \<Rightarrow> None | Value v \<Rightarrow> Some v)
         \<and> o_sku r = (case patch_sku u of Absent \<Rightarrow> o_sku (getAll st ! k)
                       | Undefined \<Rightarrow> None | Value v \<Rightarrow> Some v)
         \<and> o_barcode r = (case patch_barcode u of Absent \<Rightarrow> o_barcode (getAll st ! k)
                       | Undefined \<Rightarrow> None | Value v \<Rightarrow> Some v)
         \<and> o_current_stock r = (case patch_current_stock u of
                         Absent \<Rightarrow> o_current_stock (getAll st ! k)
                       | Undefined \<Rightarrow> None | Value v \<Rightarrow> Some v)
         \<and> o_min_stock_level r = (case patch_min_stock_level u of
                         Absent \<Rightarrow> o_min_stock_level (getAll st ! k)
                       | Undefined \<Rightarrow> None | Value v \<Rightarrow> Some v)
         \<and> o_max_stock_level r = (case patch_max_stock_level u of
                         Absent \<Rightarrow> o_max_stock_level (getAll st ! k)
                       | Undefined \<Rightarrow> None | Value v \<Rightarrow> Some v)
         \<and> o_cost_price r = (case patch_cost_price u of
                         Absent \<Rightarrow> o_cost_price (getAll st ! k)
                       | Undefined \<Rightarrow> None | Value v \<Rightarrow> Some v)
         \<and> o_selling_price r = (case patch_selling_price u of
                         Absent \<Rightarrow> o_selling_price (getAll st ! k)
                       | Undefined \<Rightarrow> None | Value v \<Rightarrow> Some v)
         \<and> o_supplier r = (case patch_supplier u of Absent \<Rightarrow> o_supplier (getAll st ! k)
                       | Undefined \<Rightarrow> None | Value v \<Rightarrow> Some v)
         \<and> o_location r = (case patch_location u of Absent \<Rightarrow> o_location (getAll st ! k)
                       | Undefined \<Rightarrow> None | Value v \<Rightarrow> Some v)
         \<and> o_created_at r = (case patch_created_at u of
                         Absent \<Rightarrow> o_created_at (getAll st ! k)
                       | Undefined \<Rightarrow> None | Value v \<Rightarrow> Some v)
         \<and> o_updated_at r = Some now))"
proof (intro conjI impI)
  assume "\<forall>p\<in>set (getAll st). o_id p \<noteq> Some i"
  then show "update i u now st = (None, st)" by (rule update_no_match)
next
  assume "\<exists>p\<in>set (getAll st). o_id p = Some i"
  then have "findIndex (\<lambda>p. o_id p = Some i) (getAll st) \<noteq> None"
    by (simp add: findIndex_None)
  then obtain k where k: "findIndex (\<lambda>p. o_id p = Some i) (getAll st) = Some k"
    by blast
  note fk = findIndex_Some [OF k]
  note uk = update_match [OF k, of u now]
  define r where "r = merge (getAll st ! k) u now"
  have new: "getAll (snd (update i u now st)) = (getAll st)[k := r]"
    by (simp add: uk getAll_def r_def)
  have frame: "o_id (getAll st ! k) = Some i
         \<and> (\<forall>j<k. o_id (getAll st ! j) \<noteq> Some i)
         \<and> fst (update i u now st) = Some r
         \<and> r = merge (getAll st ! k) u now
         \<and> length (getAll (snd (update i u now st))) = length (getAll st)
         \<and> getAll (snd (update i u now st)) ! k = r
         \<and> (\<forall>j < length (getAll st). j \<noteq> k \<longrightarrow>
               getAll (snd (update i u now st)) ! j = getAll st ! j)"
    using fk by (simp add: new) (simp add: uk r_def)
  from fk have "k < length (getAll st)" by simp
  with frame merge_fields [of "getAll st ! k" u now, folded r_def]
  show "\<exists>k < length (getAll st). \<exists>r.
           o_id (getAll st ! k) = Some i
         \<and> (\<forall>j<k. o_id (getAll st ! j) \<noteq> Some i)
         \<and> fst (update i u now st) = Some r
         \<and> r = merge (getAll st ! k) u now
         \<and> length (getAll (snd (update i u now st))) = length (getAll st)
         \<and> getAll (snd (update i u now st)) ! k = r
         \<and> (\<forall>j < length (getAll st). j \<noteq> k \<longrightarrow>
               getAll (snd (update i u now st)) ! j = getAll st ! j)
         \<and> o_id r = (case patch_id u of Absent \<Rightarrow> o_id (getAll st ! k)
                       | Undefined \<Rightarrow> None | Value v \<Rightarrow> Some v)
         \<and> o_name r = (case patch_name u of Absent \<Rightarrow> o_name (getAll st ! k)
                       | Undefined \<Rightarrow> None | Value v \<Rightarrow> Some v)
         \<and> o_description r = (case patch_description u of
                         Absent \<Rightarrow> o_description (getAll st ! k)
                       | Undefined \<Rightarrow> None | Value v \<Rightarrow> Some v)
         \<and> o_category r = (case patch_category u of Absent \<Rightarrow> o_category (getAll st ! k)
                       | Undefined \<Rightarrow> None | Value v \<Rightarrow> Some v)
         \<and> o_brand r = (case patch_brand u of Absent \<Rightarrow> o_brand (getAll st ! k)
                       | Undefined \<Rightarrow> None | Value v \<Rightarrow> Some v)
         \<and> o_sku r = (case patch_sku u of Absent \<Rightarrow> o_sku (getAll st ! k)
                       | Undefined \<Rightarrow> None | Value v \<Rightarrow> Some v)
         \<and> o_barcode r = (case patch_barcode u of Absent \<Rightarrow> o_barcode (getAll st ! k)
                       | Undefined \<Rightarrow> None | Value v \<Rightarrow> Some v)
         \<and> o_current_stock r = (case patch_current_stock u of
                         Absent \<Rightarrow> o_current_stock (getAll st ! k)
                       | Undefined \<Rightarrow> None | Value v \<Rightarrow> Some v)
         \<and> o_min_stock_level r = (case patch_min_stock_level u of
                         Absent \<Rightarrow> o_min_stock_level (getAll st ! k)
                       | Undefined \<Rightarrow> None | Value v \<Rightarrow> Some v)
         \<and> o_max_stock_level r = (case patch_max_stock_level u of
                         Absent \<Rightarrow> o_max_stock_level (getAll st ! k)
                       | Undefined \<Rightarrow> None | Value v \<Rightarrow> Some v)
         \<and> o_cost_price r = (case patch_cost_price u of
                         Absent \<Rightarrow> o_cost_price (getAll st ! k)
                       | Undefined \<Rightarrow> None | Value v \<Rightarrow> Some v)
         \<and> o_selling_price r = (case patch_selling_price u of
                         Absent \<Rightarrow> o_selling_price (getAll st ! k)
                       | Undefined \<Rightarrow> None | Value v \<Rightarrow> Some v)
         \<and> o_supplier r = (case patch_supplier u of Absent \<Rightarrow> o_supplier (getAll st ! k)
                       | Undefined \<Rightarrow> None | Value v \<Rightarrow> Some v)
         \<and> o_location r = (case patch_location u of Absent \<Rightarrow> o_location (getAll st ! k)
                       | Undefined \<Rightarrow> None | Value v \<Rightarrow> Some v)
         \<and> o_created_at r = (case patch_created_at u of
                         Absent \<Rightarrow> o_created_at (getAll st ! k)
                       | Undefined \<Rightarrow> None | Value v \<Rightarrow> Some v)
         \<and> o_updated_at r = Some now"
    by blast
qed

text \<open>The restock of product 2 from stock 5 to 40 with a patch that also clears the
  location, and an update of an unknown id.\<close>

theorem update_frame_witness:
  "(\<exists>p\<in>set (getAll (Some (map toObject defaultProducts))). o_id p = Some ''2'')
   \<and> map o_current_stock (getAll (snd (update ''2''
        (noPatch\<lparr> patch_current_stock := Value 40, patch_location := Undefined \<rparr>)
        ''t1'' (Some (map toObject defaultProducts))))) = [Some 25, Some 40, Some 0, Some 8, Some 35]
   \<and> map o_location (getAll (snd (update ''2''
        (noPatch\<lparr> patch_current_stock := Value 40, patch_location := Undefined \<rparr>)
        ''t1'' (Some (map toObject defaultProducts))))) = [Some '''', None, Some '''', Some '''', Some '''']
   \<and> map o_updated_at (getAll (snd (update ''2''
        (noPatch\<lparr> patch_current_stock := Value 40, patch_location := Undefined \<rparr>)
        ''t1'' (Some (map toObject defaultProducts))))) =
       [Some ''t0'', Some ''t1'', Some ''t0'', Some ''t0'', Some ''t0'']
   \<and> Some ''9'' \<notin> set (map o_id (getAll (Some (map toObject defaultProducts))))
   \<and> update ''9'' (noPatch\<lparr> patch_current_stock := Value 40, patch_location := Undefined \<rparr>)
        ''t1'' (Some (map toObject defaultProducts))
       = (None, Some (map toObject defaultProducts))"
  using update_frame [of "Some (map toObject defaultProducts)" "''2''"
      "noPatch\<lparr> patch_current_stock := Value 40, patch_location := Undefined \<rparr>" "''t1''"]
    update_frame [of "Some (map toObject defaultProducts)" "''9''"
      "noPatch\<lparr> patch_current_stock := Value 40, patch_location := Undefined \<rparr>" "''t1''"]
  by (simp add: update_def getAll_def defaultProducts_def sample_def toObject_def merge_def
      spread_def noPatch_def Let_def)

section \<open>Stock-level distribution\<close>






section \<open>Category breakdown\<close>

lemma map_of_mapSet: "map_of (mapSet k v m) = (map_of m)(k \<mapsto> v)"
  by (induction m) (auto simp: fun_eq_iff)

lemma keys_mapSet:
  "map fst (mapSet k v m) = (if k \<in> set (map fst m) then map fst m else map fst m @ [k])"
  by (induction m) (auto simp: rev_image_eqI)

lemma count_mapSet:
  "sum_list (map (\<lambda>e. data_count (snd e)) (mapSet k v m))
     + data_count (orElse (map_of m k) \<lparr> data_count = 0, data_value = 0 \<rparr>)
   = sum_list (map (\<lambda>e. data_count (snd e)) m) + data_count v"
  by (induction m) (auto simp: orElse_def)

lemma count_mapSet_eq:
  "sum_list (map (\<lambda>e. data_count (snd e)) (mapSet k v m)) =
     sum_list (map (\<lambda>e. data_count (snd e)) m) + data_count v
       - data_count (orElse (map_of m k) \<lparr> data_count = 0, data_value = 0 \<rparr>)"
  using count_mapSet [of k v m] by arith

lemma categoryMap_snoc: "categoryMap (ps @ [p]) = addToCategory (categoryMap ps) p"
  by (simp add: categoryMap_def)

text \<open>The keys of the map are the categories in the order in which the loop first meets
  them.\<close>

lemma categoryMap_keys:
  "map fst (categoryMap ps) = rev (remdups (rev (map category ps)))"
proof (induction ps rule: rev_induct)
  case Nil
  show ?case by (simp add: categoryMap_def)
next
  case (snoc p ps)
  have "set (map fst (categoryMap ps)) = category ` set ps"
    by (simp add: snoc.IH)
  then show ?case
    by (simp add: categoryMap_snoc addToCategory_def Let_def keys_mapSet snoc.IH)
qed

lemma categoryMap_lookup:
  "map_option data_count (map_of (categoryMap ps) c) =
     (if c \<in> category ` set ps then Some (length (filter (\<lambda>p. category p = c) ps)) else None)"
proof (induction ps rule: rev_induct)
  case Nil
  show ?case by (simp add: categoryMap_def)
next
  case (snoc p ps)
  show ?case
  proof (cases "category p = c")
    case same: True
    show ?thesis
    proof (cases "c \<in> category ` set ps")
      case True
      with snoc.IH obtain d where d: "map_of (categoryMap ps) c = Some d"
        "data_count d = length (filter (\<lambda>p. category p = c) ps)"
        by auto
      with same show ?thesis
        by (simp add: categoryMap_snoc addToCategory_def Let_def map_of_mapSet orElse_def)
    next
      case False
      with snoc.IH have d: "map_of (categoryMap ps) c = None" by simp
      from False have "filter (\<lambda>p. category p = c) ps = []"
        by (auto simp: filter_empty_conv)
      with d same show ?thesis
        by (simp add: categoryMap_snoc addToCategory_def Let_def map_of_mapSet orElse_def)
    qed
  next
    case False
    then show ?thesis
      using snoc.IH
      by (simp add: categoryMap_snoc addToCategory_def Let_def map_of_mapSet)
  qed
qed

lemma categoryMap_distinct: "distinct (map fst (categoryMap ps))"
  by (simp add: categoryMap_keys)

lemma categoryMap_entry_count:
  assumes "e \<in> set (categoryMap ps)"
  shows "data_count (snd e) = length (filter (\<lambda>p. category p = fst e) ps)"
proof -
  from assms have "map_of (categoryMap ps) (fst e) = Some (snd e)"
    using categoryMap_distinct [of ps] by (simp add: map_of_eq_Some_iff)
  moreover from assms have "fst e \<in> set (map fst (categoryMap ps))" by force
  then have "fst e \<in> category ` set ps" by (simp add: categoryMap_keys)
  ultimately show ?thesis
    using categoryMap_lookup [of ps "fst e"] by simp
qed

lemma categoryMap_count_sum:
  "sum_list (map (\<lambda>e. data_count (snd e)) (categoryMap ps)) = length ps"
proof (induction ps rule: rev_induct)
  case Nil
  show ?case by (simp add: categoryMap_def)
next
  case (snoc p ps)
  from snoc.IH show ?case
    by (simp add: categoryMap_snoc addToCategory_def Let_def count_mapSet_eq)
qed

text \<open>With the comparison function of the report, the sort is the library's stable
  insertion sort on the key \<open>- count\<close>.\<close>

lemma insertBy_insort_key:
  "insertBy (\<lambda>a b. int (row_count b) - int (row_count a)) x xs =
     insort_key (\<lambda>r. - int (row_count r)) x xs"
  by (induction xs) auto

lemma arraySort_sort_key:
  "arraySort (\<lambda>a b. int (row_count b) - int (row_count a)) xs =
     sort_key (\<lambda>r. - int (row_count r)) xs"
  by (induction xs) (simp_all add: arraySort_def insertBy_insort_key)

lemma sum_list_insort_key:
  "sum_list (map g (insort_key f x xs)) = g x + sum_list (map (g :: 'a \<Rightarrow> nat) xs)"
  by (induction xs) auto

lemma sum_list_sort_key:
  "sum_list (map g (sort_key f xs)) = sum_list (map (g :: 'a \<Rightarrow> nat) xs)"
  by (induction xs) (simp_all add: sum_list_insort_key)

lemma categoryBreakdown_sort:
  "categoryBreakdown ps = sort_key (\<lambda>r. - int (row_count r)) (map toRow (categoryMap ps))"
  by (simp add: categoryBreakdown_def arraySort_sort_key)

lemma rows_category: "map row_category (map toRow m) = map fst m"
  by (simp add: toRow_def)

lemma sorted_desc:
  "sorted (map (\<lambda>r. - int (row_count r)) xs) \<Longrightarrow>
     sorted_wrt (\<lambda>a b. row_count a \<ge> row_count b) xs"
  by (induction xs) auto

text \<open>
  Claim C6: \<^verbatim>\<open>categoryBreakdown\<close> has one row for each category string that occurs in
  the catalog, strings being compared as they are; the count of a row is the number of
  products with exactly that category; the rows are in descending order of count; the
  rows of equal count stand in the order in which their categories first occur in the
  catalog; and the counts sum to the number of products.
\<close>

theorem categoryBreakdown_spec:
  "distinct (map row_category (categoryBreakdown ps))
   \<and> set (map row_category (categoryBreakdown ps)) = set (map category ps)
   \<and> (\<forall>r\<in>set (categoryBreakdown ps).
        row_count r = length (filter (\<lambda>p. category p = row_category r) ps))
   \<and> sorted_wrt (\<lambda>a b. row_count a \<ge> row_count b) (categoryBreakdown ps)
   \<and> (\<forall>k. map row_category (filter (\<lambda>r. row_count r = k) (categoryBreakdown ps)) =
            filter (\<lambda>c. length (filter (\<lambda>p. category p = c) ps) = k)
              (rev (remdups (rev (map category ps)))))
   \<and> sum_list (map row_count (categoryBreakdown ps)) = length ps"
proof (intro conjI allI)
  let ?rows = "map toRow (categoryMap ps)"
  let ?f = "\<lambda>r. - int (row_count r)"
  have rows_count: "row_count r = length (filter (\<lambda>p. category p = row_category r) ps)"
    if "r \<in> set ?rows" for r
  proof -
    from that obtain e where "e \<in> set (categoryMap ps)" "r = toRow e" by auto
    with categoryMap_entry_count [of e ps] show ?thesis by (simp add: toRow_def)
  qed
  have set_eq: "set (categoryBreakdown ps) = set ?rows"
    by (simp add: categoryBreakdown_sort)
  have inj: "inj_on row_category (set ?rows)"
    using categoryMap_distinct [of ps]
    by (metis distinct_map rows_category)
  have "distinct ?rows"
    using categoryMap_distinct [of ps] by (metis distinct_map rows_category)
  then have "distinct (categoryBreakdown ps)"
    by (simp add: categoryBreakdown_sort)
  with inj set_eq show "distinct (map row_category (categoryBreakdown ps))"
    by (simp add: distinct_map)
  have "set (map row_category (categoryBreakdown ps)) = set (map row_category ?rows)"
    using set_eq by (simp only: set_map)
  also have "\<dots> = set (map category ps)"
    by (simp only: rows_category categoryMap_keys set_rev set_remdups)
  finally show "set (map row_category (categoryBreakdown ps)) = set (map category ps)" .
  show "\<forall>r\<in>set (categoryBreakdown ps).
        row_count r = length (filter (\<lambda>p. category p = row_category r) ps)"
    using rows_count set_eq by blast
  have "sorted (map ?f (categoryBreakdown ps))"
    by (simp add: categoryBreakdown_sort)
  then show "sorted_wrt (\<lambda>a b. row_count a \<ge> row_count b) (categoryBreakdown ps)"
    by (rule sorted_desc)
  show "sum_list (map row_count (categoryBreakdown ps)) = length ps"
    using categoryMap_count_sum [of ps]
    by (simp add: categoryBreakdown_sort sum_list_sort_key toRow_def comp_def)
  fix k :: nat
  have "filter (\<lambda>r. row_count r = k) (categoryBreakdown ps) =
        filter (\<lambda>r. ?f r = - int k) (sort_key ?f ?rows)"
    by (simp add: categoryBreakdown_sort)
  also have "\<dots> = filter (\<lambda>r. ?f r = - int k) ?rows"
    by (rule sort_key_stable)
  also have "\<dots> = filter (\<lambda>r. length (filter (\<lambda>p. category p = row_category r) ps) = k) ?rows"
    by (rule filter_cong) (simp_all add: rows_count)
  finally have "map row_category (filter (\<lambda>r. row_count r = k) (categoryBreakdown ps)) =
      filter (\<lambda>c. length (filter (\<lambda>p. category p = c) ps) = k) (map row_category ?rows)"
    by (simp add: filter_map comp_def)
  then show "map row_category (filter (\<lambda>r. row_count r = k) (categoryBreakdown ps)) =
            filter (\<lambda>c. length (filter (\<lambda>p. category p = c) ps) = k)
              (rev (remdups (rev (map category ps))))"
    by (simp only: rows_category categoryMap_keys)
qed

text \<open>In \<open>tieCatalog\<close> the category Garden has two products and comes first; tools, Paint
  and Tools have one each and keep the order of their first products.\<close>

theorem categoryBreakdown_spec_witness:
  "map row_category (categoryBreakdown tieCatalog) = [''Garden'', ''tools'', ''Paint'', ''Tools'']
   \<and> map row_count (categoryBreakdown tieCatalog) = [2, 1, 1, 1]
   \<and> map row_category (filter (\<lambda>r. row_count r = 1) (categoryBreakdown tieCatalog)) =
       [''tools'', ''Paint'', ''Tools'']
   \<and> sum_list (map row_count (categoryBreakdown tieCatalog)) = length tieCatalog"
proof -
  have rows: "categoryBreakdown tieCatalog =
     [\<lparr> row_category = ''Garden'', row_count = 2, row_value = 2 \<rparr>,
      \<lparr> row_category = ''tools'', row_count = 1, row_value = 1 \<rparr>,
      \<lparr> row_category = ''Paint'', row_count = 1, row_value = 1 \<rparr>,
      \<lparr> row_category = ''Tools'', row_count = 1, row_value = 1 \<rparr>]"
    by (simp add: categoryBreakdown_def arraySort_def categoryMap_def addToCategory_def
        toRow_def tieCatalog_def sample_def orElse_def Let_def)
  from categoryBreakdown_spec [of tieCatalog] have
    "sum_list (map row_count (categoryBreakdown tieCatalog)) = length tieCatalog"
    by blast
  with rows show ?thesis by simp
qed

section \<open>Total inventory value\<close>

text \<open>The integer logarithm and the exponent: \<open>2^(exponent x) \<le> |x| < 2^(exponent x + 1)\<close>.\<close>

lemma ilog2_bounds:
  "0 < n \<Longrightarrow> 0 \<le> ilog2 n \<and> 2 ^ nat (ilog2 n) \<le> n \<and> n < 2 * 2 ^ nat (ilog2 n)"
proof (induction n rule: ilog2.induct)
  case (1 n)
  show ?case
  proof (cases "n < 2")
    case True
    with "1.prems" have "n = 1" by simp
    then show ?thesis by (simp add: ilog2.simps)
  next
    case False
    then have pos: "0 < n div 2" by simp
    from "1.IH" [OF False pos]
    have ih: "0 \<le> ilog2 (n div 2)" "2 ^ nat (ilog2 (n div 2)) \<le> n div 2"
      "n div 2 < 2 * 2 ^ nat (ilog2 (n div 2))"
      by simp_all
    have eq: "ilog2 n = 1 + ilog2 (n div 2)"
      using False by (subst ilog2.simps) simp
    have p: "(2::int) ^ nat (1 + ilog2 (n div 2)) = 2 * 2 ^ nat (ilog2 (n div 2))"
      using ih(1) by (simp add: nat_add_distrib)
    from ih show ?thesis unfolding eq p by (simp; linarith)
  qed
qed

lemma ilog2_powi:
  assumes "0 < n"
  shows "(2::rat) powi ilog2 n \<le> of_int n" and "(of_int n :: rat) + 1 \<le> 2 powi (ilog2 n + 1)"
proof -
  from ilog2_bounds [OF assms]
  have b: "0 \<le> ilog2 n" "2 ^ nat (ilog2 n) \<le> n" "n + 1 \<le> 2 * 2 ^ nat (ilog2 n)"
    by simp_all
  have "(of_int (2 ^ nat (ilog2 n)) :: rat) \<le> of_int n"
    using b(2) by (simp only: of_int_le_iff)
  then show "(2::rat) powi ilog2 n \<le> of_int n"
    using b(1) by (simp add: power_int_nonneg_exp)
  have "(of_int (n + 1) :: rat) \<le> of_int (2 * 2 ^ nat (ilog2 n))"
    using b(3) by (simp only: of_int_le_iff)
  then show "(of_int n :: rat) + 1 \<le> 2 powi (ilog2 n + 1)"
    using b(1) by (simp add: power_int_nonneg_exp nat_add_distrib)
qed

lemma exponent_bounds:
  assumes "x \<noteq> 0"
  shows "2 powi exponent x \<le> \<bar>x\<bar> \<and> \<bar>x\<bar> < 2 powi (exponent x + 1)"
proof (cases "1 \<le> \<bar>x\<bar>")
  case True
  then have pos: "0 < \<lfloor>\<bar>x\<bar>\<rfloor>" by simp
  from True have e: "exponent x = ilog2 \<lfloor>\<bar>x\<bar>\<rfloor>"
    by (simp add: exponent_def)
  have "(2::rat) powi ilog2 \<lfloor>\<bar>x\<bar>\<rfloor> \<le> of_int \<lfloor>\<bar>x\<bar>\<rfloor>"
    by (rule ilog2_powi [OF pos])
  also have "\<dots> \<le> \<bar>x\<bar>" by simp
  finally have lo: "2 powi exponent x \<le> \<bar>x\<bar>" by (simp add: e)
  have "\<bar>x\<bar> < of_int \<lfloor>\<bar>x\<bar>\<rfloor> + 1" using floor_correct [of "\<bar>x\<bar>"] by simp
  also have "\<dots> \<le> 2 powi (ilog2 \<lfloor>\<bar>x\<bar>\<rfloor> + 1)"
    by (rule ilog2_powi [OF pos])
  finally have "\<bar>x\<bar> < 2 powi (exponent x + 1)" by (simp add: e)
  with lo show ?thesis by simp
next
  case False
  define a where "a = \<bar>x\<bar>"
  define y where "y = 1 / a"
  define l where "l = ilog2 \<lfloor>y\<rfloor>"
  from assms False have a: "0 < a" "a < 1" by (simp_all add: a_def)
  then have y1: "1 < y" by (simp add: y_def)
  then have pos: "0 < \<lfloor>y\<rfloor>" by simp
  have e: "exponent x = (if y = 2 powi l then - l else - l - 1)"
    using False by (simp add: exponent_def Let_def a_def y_def l_def)
  have ay: "a = 1 / y" using a by (simp add: y_def)
  have "(2::rat) powi l \<le> of_int \<lfloor>y\<rfloor>"
    unfolding l_def by (rule ilog2_powi [OF pos])
  also have "\<dots> \<le> y" by simp
  finally have ly: "2 powi l \<le> y" .
  have "y < of_int \<lfloor>y\<rfloor> + 1" using floor_correct [of y] by simp
  also have "\<dots> \<le> 2 powi (l + 1)"
    unfolding l_def by (rule ilog2_powi [OF pos])
  finally have yu: "y < 2 powi (l + 1)" .
  have inv: "1 / (2::rat) powi k = 2 powi (- k)" for k
    by (simp add: power_int_minus_divide)
  show ?thesis
  proof (cases "y = 2 powi l")
    case True
    then have al: "a = 2 powi (- l)" by (simp add: ay inv)
    have "(2::rat) powi (- l) < 2 powi (- l + 1)"
      by (rule power_int_strict_increasing) simp_all
    with True al show ?thesis by (simp add: e a_def [symmetric])
  next
    case False
    with ly have "2 powi l < y" by simp
    moreover have "0 < y * 2 powi l" using y1 by simp
    ultimately have "1 / y < 1 / 2 powi l"
      by (intro divide_strict_left_mono) simp_all
    then have up: "a < 2 powi (- l)" by (simp only: ay inv)
    have "0 < 2 powi (l + 1) * y" using y1 by simp
    with yu have "1 / 2 powi (l + 1) < 1 / y"
      by (intro divide_strict_left_mono) simp_all
    then have "2 powi (- (l + 1)) < a" by (simp only: ay inv)
    then have lo: "2 powi (- l - 1) \<le> a" by simp
    from False lo up show ?thesis by (simp add: e a_def [symmetric])
  qed
qed

lemma powi_less_cancel:
  assumes "(2::rat) powi m < 2 powi n"
  shows "m < n"
proof (rule ccontr)
  assume "\<not> m < n"
  then have "n \<le> m" by simp
  then have "(2::rat) powi n \<le> 2 powi m"
    by (rule power_int_increasing) simp
  with assms show False by simp
qed

lemma exponent_unique:
  assumes "x \<noteq> 0" and lo: "2 powi t \<le> \<bar>x\<bar>" and up: "\<bar>x\<bar> < 2 powi (t + 1)"
  shows "exponent x = t"
proof -
  from exponent_bounds [OF assms(1)]
  have b: "2 powi exponent x \<le> \<bar>x\<bar>" "\<bar>x\<bar> < 2 powi (exponent x + 1)" by simp_all
  from b(1) up have "(2::rat) powi exponent x < 2 powi (t + 1)" by (rule le_less_trans)
  then have 1: "exponent x < t + 1" by (rule powi_less_cancel)
  from lo b(2) have "(2::rat) powi t < 2 powi (exponent x + 1)" by (rule le_less_trans)
  then have "t < exponent x + 1" by (rule powi_less_cancel)
  with 1 show ?thesis by simp
qed

lemma roundHalfEven_of_int: "roundHalfEven (of_int z) = z"
  by (simp add: roundHalfEven_def)

lemma roundHalfEven_near:
  assumes "\<bar>y - of_int m\<bar> < 1 / 2"
  shows "roundHalfEven y = m"
proof -
  define f where "f = \<lfloor>y\<rfloor>"
  have fl: "of_int f \<le> y" "y < of_int f + 1"
    using floor_correct [of y] by (simp_all add: f_def)
  from assms have ym: "of_int m - 1 / 2 < y" "y < of_int m + 1 / 2" by (simp_all add: abs_less_iff; linarith)+
  have "f = m \<or> f = m - 1"
  proof -
    from ym(2) fl(1) have "(of_int f :: rat) < of_int m + 1 / 2" by simp
    then have "(of_int f :: rat) < of_int (m + 1)" by simp
    then have 1: "f < m + 1" by (simp only: of_int_less_iff)
    from ym(1) fl(2) have "(of_int m :: rat) - 1 / 2 < of_int f + 1" by simp
    then have "(of_int (m - 2) :: rat) < of_int f" by simp
    then have "m - 2 < f" by (simp only: of_int_less_iff)
    with 1 show ?thesis by arith
  qed
  then show ?thesis
  proof
    assume "f = m"
    with ym show ?thesis by (simp add: roundHalfEven_def Let_def flip: f_def)
  next
    assume "f = m - 1"
    with ym show ?thesis by (simp add: roundHalfEven_def Let_def flip: f_def)
  qed
qed


lemma toDouble_cert:
  assumes "x \<noteq> 0" and "2 powi t \<le> \<bar>x\<bar>" and "\<bar>x\<bar> < 2 powi (t + 1)"
    and "- 1022 \<le> t"
    and "\<bar>x / 2 powi (t - 52) - of_int m\<bar> < 1 / 2"
    and "r = of_int m * 2 powi (t - 52)"
    and "\<bar>r\<bar> < 2 ^ 1024"
  shows "toDouble x = Some r"
proof -
  have e: "exponent x = t" using assms(1-3) by (rule exponent_unique)
  from assms(4) have m: "max (t - 52) (- 1074) = t - 52" by simp
  have "roundHalfEven (x / 2 powi (t - 52)) = m"
    using assms(5) by (rule roundHalfEven_near)
  with assms(1,6,7) show ?thesis
    by (simp add: toDouble_def e m Let_def)
qed

lemma toDouble_exact:
  assumes x: "x = of_int n / 2 ^ k" and k: "k \<le> 1074" and n: "\<bar>n\<bar> < 2 ^ 53"
  shows "toDouble x = Some x"
proof (cases "x = 0")
  case True
  then show ?thesis by (simp add: toDouble_def)
next
  case False
  define e where "e = max (exponent x - 52) (- 1074)"
  have xk: "x = of_int n * 2 powi (- int k)"
    by (simp add: x power_int_minus_divide)
  have "(of_int \<bar>n\<bar> :: rat) < of_int (2 ^ 53)"
    using n by (simp only: of_int_less_iff)
  then have an: "\<bar>of_int n :: rat\<bar> < 2 ^ 53" by simp
  have "\<bar>x\<bar> = \<bar>of_int n\<bar> * 2 powi (- int k)"
    by (simp add: xk abs_mult)
  also have "\<dots> < 2 ^ 53 * 2 powi (- int k)"
    using an by (rule mult_strict_right_mono) simp
  also have "\<dots> = 2 powi (53 - int k)"
    by (simp add: power_int_diff power_int_minus_divide)
  finally have ax: "\<bar>x\<bar> < 2 powi (53 - int k)" .
  from exponent_bounds [OF False] have "2 powi exponent x \<le> \<bar>x\<bar>" by simp
  from this ax have "(2::rat) powi exponent x < 2 powi (53 - int k)"
    by (rule le_less_trans)
  then have "exponent x < 53 - int k" by (rule powi_less_cancel)
  with k have ek: "e \<le> - int k" by (simp add: e_def)
  define j where "j = nat (- int k - e)"
  have pj: "(2::rat) powi (- int k) = 2 powi e * 2 ^ j"
  proof -
    have "(2::rat) powi (- int k) = 2 powi (e + int j)"
      using ek by (simp add: j_def)
    also have "\<dots> = 2 powi e * 2 powi (int j)"
      by (rule power_int_add) simp
    finally show ?thesis by simp
  qed
  have ne: "(2::rat) powi e \<noteq> 0" by simp
  have q: "x / 2 powi e = of_int (n * 2 ^ j)"
    using ne by (simp add: xk pj)
  have r: "of_int (roundHalfEven (x / 2 powi e)) * 2 powi e = x"
    using ne by (simp only: q roundHalfEven_of_int) (simp add: xk pj)
  have "(2::rat) powi (53 - int k) \<le> 2 powi 53"
    by (rule power_int_increasing) simp_all
  with ax have "\<bar>x\<bar> < 2 ^ 53" by simp
  also have "\<dots> \<le> (2::rat) ^ 1024" by (rule power_increasing) simp_all
  finally have big: "\<not> 2 ^ 1024 \<le> \<bar>x\<bar>" by simp
  have "toDouble x = (if (2::rat) ^ 1024 \<le> \<bar>of_int (roundHalfEven (x / 2 powi e)) * 2 powi e\<bar>
      then None else Some (of_int (roundHalfEven (x / 2 powi e)) * 2 powi e))"
    using False by (simp only: toDouble_def e_def Let_def if_False)
  also have "\<dots> = Some x" using big by (simp only: r if_False)
  finally show ?thesis .
qed

text \<open>The roundings in the total of \<open>driftCatalog\<close>: the two prices, the two products
  of stock and price, and the two additions.\<close>

lemma price_1: "toDouble (825461797 / 100) = Some (8863328555530977 / 1073741824)"
  by (rule toDouble_cert [where t = 22 and m = 8863328555530977]) simp_all

lemma stock_1: "toDouble 8933607 = Some 8933607"
  using toDouble_exact [of 8933607 8933607 0] by simp

lemma value_1:
  "toDouble (8933607 * (8863328555530977 / 1073741824)) = Some (2359792412131769 / 32)"
  by (rule toDouble_cert [where t = 46 and m = 4719584824263538]) simp_all

lemma sum_1: "toDouble (2359792412131769 / 32) = Some (2359792412131769 / 32)"
  using toDouble_exact [of "2359792412131769 / 32" 2359792412131769 5] by simp

lemma price_2: "toDouble (8551 / 100) = Some (6017231314632049 / 70368744177664)"
  by (rule toDouble_cert [where t = 6 and m = 6017231314632049]) simp_all

lemma stock_2: "toDouble 641 = Some 641"
  using toDouble_exact [of 641 641 0] by simp

lemma value_2:
  "toDouble (641 * (6017231314632049 / 70368744177664)) = Some (1883322887050363 / 34359738368)"
  by (rule toDouble_cert [where t = 15 and m = 7533291548201452]) simp_all

lemma sum_2:
  "toDouble (2359792412131769 / 32 + 1883322887050363 / 34359738368) =
     Some (1179896206942875 / 16)"
  by (rule toDouble_cert [where t = 46 and m = 4719584827771500]) simp_all

lemma totalValue_driftCatalog: "totalValue driftCatalog = Some (1179896206942875 / 16)"
proof -
  have "dmul (toDouble 8933607) (toDouble (825461797 / 100)) = Some (2359792412131769 / 32)"
    by (simp only: price_1 stock_1 dmul_def prod.case option.case value_1)
  moreover
  have "dmul (toDouble 641) (toDouble (8551 / 100)) = Some (1883322887050363 / 34359738368)"
    by (simp only: price_2 stock_2 dmul_def prod.case option.case value_2)
  moreover
  have "dadd (Some 0) (Some (2359792412131769 / 32)) = Some (2359792412131769 / 32)"
    by (simp add: dadd_def sum_1)
  moreover
  have "dadd (Some (2359792412131769 / 32)) (Some (1883322887050363 / 34359738368)) =
      Some (1179896206942875 / 16)"
    by (simp only: dadd_def prod.case option.case sum_2)
  ultimately show ?thesis
    by (simp add: totalValue_def driftCatalog_def sample_def)
qed

text \<open>
  Claim C3, as stated, at a catalog of two products, 8933607 pieces at 8254617.97 and
  641 pieces at 85.51: the total of the code is 73743512933929.6875, the exact sum of
  stock times price is 73743512933929.70, and they differ by 1.25 cents.
\<close>

theorem totalValue_drift_counterexample:
  "length driftCatalog \<le> 10000
   \<and> totalValue driftCatalog = Some (1179896206942875 / 16)
   \<and> sum_list (map (\<lambda>p. of_int (current_stock p) * cost_price p) driftCatalog)
       = 737435129339297 / 10
   \<and> 737435129339297 / 10 - 1179896206942875 / 16 = (1 / 80 :: rat)
   \<and> (1 / 100 :: rat) < 1 / 80"
  using totalValue_driftCatalog by (simp add: driftCatalog_def sample_def)

text \<open>Multiples of \<open>2^(- k)\<close> below \<open>2^(53 - k)\<close> are numbers, and so are the integers
  below \<open>2^53\<close>.\<close>

lemma toDouble_dyadic:
  assumes "x * 2 ^ k \<in> \<int>" and "k \<le> 1074" and "\<bar>x\<bar> * 2 ^ k < 2 ^ 53"
  shows "toDouble x = Some x"
proof -
  from assms(1) obtain z where z: "x * 2 ^ k = of_int z" by (auto elim: Ints_cases)
  then have x: "x = of_int z / 2 ^ k" by (simp add: field_simps)
  have "\<bar>x\<bar> * 2 ^ k = \<bar>of_int z :: rat\<bar>" by (simp add: x)
  with assms(3) have "(of_int \<bar>z\<bar> :: rat) < of_int (2 ^ 53)" by simp
  then have "\<bar>z\<bar> < 2 ^ 53" by (simp only: of_int_less_iff)
  with x assms(2) show ?thesis by (rule toDouble_exact)
qed

lemma toDouble_int:
  assumes "\<bar>s\<bar> < 2 ^ 53"
  shows "toDouble (of_int s) = Some (of_int s)"
  using toDouble_exact [of "of_int s" s 0] assms by simp


lemma exact_sum_dyadic:
  assumes "\<forall>p\<in>set ps. cost_price p * 2 ^ k \<in> \<int>"
  shows "(\<Sum>p\<leftarrow>ps. of_int (current_stock p) * cost_price p) * 2 ^ k \<in> \<int>"
  using assms
proof (induction ps)
  case Nil
  show ?case by simp
next
  case (Cons p ps)
  from Cons.prems have "cost_price p * 2 ^ k \<in> \<int>" by simp
  then have "of_int (current_stock p) * (cost_price p * 2 ^ k) \<in> \<int>"
    by (rule Ints_mult [OF Ints_of_int])
  moreover have "(\<Sum>p\<leftarrow>ps. of_int (current_stock p) * cost_price p) * 2 ^ k \<in> \<int>"
    using Cons by simp
  ultimately have "of_int (current_stock p) * (cost_price p * 2 ^ k)
      + (\<Sum>p\<leftarrow>ps. of_int (current_stock p) * cost_price p) * 2 ^ k \<in> \<int>"
    by (rule Ints_add)
  then show ?case by (simp add: distrib_right mult.assoc)
qed

lemma totalValue_snoc:
  "totalValue (ps @ [p]) =
     dadd (totalValue ps) (dmul (toDouble (of_int (current_stock p))) (toDouble (cost_price p)))"
  by (simp add: totalValue_def)

text \<open>When every price is a multiple of \<open>2^(- k)\<close> and the amounts stay below
  \<open>2^(53 - k)\<close>, no step rounds, and the total is the exact sum.\<close>

lemma totalValue_exact:
  assumes k: "k \<le> 1074"
    and prices: "\<forall>p\<in>set ps. cost_price p * 2 ^ k \<in> \<int> \<and> \<bar>cost_price p\<bar> * 2 ^ k < 2 ^ 53
                   \<and> \<bar>current_stock p\<bar> < 2 ^ 53"
    and total: "(\<Sum>p\<leftarrow>ps. \<bar>of_int (current_stock p) * cost_price p\<bar>) * 2 ^ k < 2 ^ 53"
  shows "totalValue ps = Some (\<Sum>p\<leftarrow>ps. of_int (current_stock p) * cost_price p)"
  using prices total
proof (induction ps rule: rev_induct)
  case Nil
  show ?case by (simp add: totalValue_def)
next
  case (snoc p ps)
  let ?v = "of_int (current_stock p) * cost_price p"
  let ?S = "\<Sum>p\<leftarrow>ps. of_int (current_stock p) * cost_price p"
  let ?A = "\<Sum>p\<leftarrow>ps. \<bar>of_int (current_stock p) * cost_price p\<bar>"
  have two: "(0::rat) < 2 ^ k" by simp
  have A0: "0 \<le> ?A" by (rule sum_list_nonneg) auto
  from snoc.prems(2) have tot: "(?A + \<bar>?v\<bar>) * 2 ^ k < 2 ^ 53" by simp
  have "?A * 2 ^ k \<le> (?A + \<bar>?v\<bar>) * 2 ^ k"
    by (rule mult_right_mono) simp_all
  from this tot have totps: "?A * 2 ^ k < 2 ^ 53" by (rule le_less_trans)
  from snoc.prems(1) have prps: "\<forall>p\<in>set ps. cost_price p * 2 ^ k \<in> \<int>
      \<and> \<bar>cost_price p\<bar> * 2 ^ k < 2 ^ 53 \<and> \<bar>current_stock p\<bar> < 2 ^ 53"
    by simp
  from snoc.IH [OF prps totps] have ih: "totalValue ps = Some ?S" .
  from snoc.prems(1) have p: "cost_price p * 2 ^ k \<in> \<int>" "\<bar>cost_price p\<bar> * 2 ^ k < 2 ^ 53"
    "\<bar>current_stock p\<bar> < 2 ^ 53"
    by simp_all
  have s: "toDouble (of_int (current_stock p)) = Some (of_int (current_stock p))"
    using p(3) by (rule toDouble_int)
  have c: "toDouble (cost_price p) = Some (cost_price p)"
    using p(1) k p(2) by (rule toDouble_dyadic)
  have vz: "?v * 2 ^ k \<in> \<int>"
  proof -
    have "of_int (current_stock p) * (cost_price p * 2 ^ k) \<in> \<int>"
      using p(1) by (rule Ints_mult [OF Ints_of_int])
    then show ?thesis by (simp add: mult.assoc)
  qed
  have "\<bar>?v\<bar> * 2 ^ k \<le> (?A + \<bar>?v\<bar>) * 2 ^ k"
    using A0 by (intro mult_right_mono) simp_all
  from this tot have vb: "\<bar>?v\<bar> * 2 ^ k < 2 ^ 53" by (rule le_less_trans)
  have v: "toDouble ?v = Some ?v"
    using vz k vb by (rule toDouble_dyadic)
  have Sz: "?S * 2 ^ k \<in> \<int>"
    using prps by (intro exact_sum_dyadic) simp
  have svz: "(?S + ?v) * 2 ^ k \<in> \<int>"
    using Ints_add [OF Sz vz] by (simp add: distrib_right)
  have "\<bar>?S\<bar> \<le> ?A"
    using sum_list_abs [of "map (\<lambda>p. of_int (current_stock p) * cost_price p) ps"]
    by (simp add: comp_def)
  then have "\<bar>?S + ?v\<bar> \<le> ?A + \<bar>?v\<bar>" by linarith
  then have "\<bar>?S + ?v\<bar> * 2 ^ k \<le> (?A + \<bar>?v\<bar>) * 2 ^ k"
    by (rule mult_right_mono) simp
  from this tot have svb: "\<bar>?S + ?v\<bar> * 2 ^ k < 2 ^ 53" by (rule le_less_trans)
  have sv: "toDouble (?S + ?v) = Some (?S + ?v)"
    using svz k svb by (rule toDouble_dyadic)
  show ?case
    by (simp add: totalValue_snoc ih s c dmul_def dadd_def v sv)
qed

text \<open>Every rounding is off by at most half a unit in the last place: a relative error of
  \<open>2^(- 53)\<close>, or \<open>2^(- 1075)\<close> for the smallest numbers.\<close>

lemma roundHalfEven_err: "\<bar>of_int (roundHalfEven y) - y\<bar> \<le> 1 / 2"
proof -
  have fl: "of_int \<lfloor>y\<rfloor> \<le> y" "y < of_int \<lfloor>y\<rfloor> + 1"
    using floor_correct [of y] by simp_all
  show ?thesis
  proof (cases "y - of_int \<lfloor>y\<rfloor> < 1 / 2")
    case True
    then have "roundHalfEven y = \<lfloor>y\<rfloor>" by (simp add: roundHalfEven_def Let_def)
    with True fl show ?thesis by (simp add: abs_le_iff)
  next
    case False
    then have "roundHalfEven y = \<lfloor>y\<rfloor> + 1 \<or> (roundHalfEven y = \<lfloor>y\<rfloor> \<and> y - of_int \<lfloor>y\<rfloor> = 1 / 2)"
      by (simp add: roundHalfEven_def Let_def)
    then show ?thesis
    proof
      assume "roundHalfEven y = \<lfloor>y\<rfloor> + 1"
      with False fl show ?thesis by (simp add: abs_le_iff)
    next
      assume "roundHalfEven y = \<lfloor>y\<rfloor> \<and> y - of_int \<lfloor>y\<rfloor> = 1 / 2"
      then show ?thesis by (simp add: abs_le_iff)
    qed
  qed
qed

lemma toDouble_err:
  assumes "\<bar>x\<bar> \<le> 2 ^ 1000"
  shows "\<exists>r. toDouble x = Some r \<and> \<bar>r - x\<bar> \<le> (\<bar>x\<bar> + 1 / 2 ^ 1022) / 2 ^ 53"
proof (cases "x = 0")
  case True
  then show ?thesis by (simp add: toDouble_def)
next
  case False
  define t where "t = exponent x"
  define e where "e = max (t - 52) (- 1074)"
  define y where "y = x / 2 powi e"
  define r :: rat where "r = of_int (roundHalfEven y) * 2 powi e"
  have pe: "(0::rat) < 2 powi e" by simp
  have xy: "x = y * 2 powi e" by (simp add: y_def)
  have "r - x = (of_int (roundHalfEven y) - y) * 2 powi e"
    by (simp add: r_def xy algebra_simps)
  then have "\<bar>r - x\<bar> = \<bar>of_int (roundHalfEven y) - y\<bar> * 2 powi e"
    by (simp add: abs_mult)
  also have "\<dots> \<le> 1 / 2 * 2 powi e"
    using roundHalfEven_err [of y] by (rule mult_right_mono) simp
  finally have err: "\<bar>r - x\<bar> \<le> 2 powi e / 2" by simp
  from exponent_bounds [OF False] have lo: "2 powi t \<le> \<bar>x\<bar>" by (simp add: t_def)
  have "2 powi e / 2 \<le> (\<bar>x\<bar> + 1 / 2 ^ 1022) / 2 ^ 53"
  proof (cases "- 1074 \<le> t - 52")
    case True
    then have "e = t - 52" by (simp add: e_def)
    then have "(2::rat) powi e / 2 = 2 powi t / 2 ^ 53"
      by (simp add: power_int_diff)
    also have "\<dots> \<le> \<bar>x\<bar> / 2 ^ 53"
      using lo by (simp add: divide_right_mono)
    also have "\<dots> \<le> (\<bar>x\<bar> + 1 / 2 ^ 1022) / 2 ^ 53"
      by (simp add: divide_right_mono)
    finally show ?thesis .
  next
    case False
    then have "e = - 1074" by (simp add: e_def)
    then have "(2::rat) powi e / 2 = (1 / 2 ^ 1022) / 2 ^ 53"
      by (simp add: power_int_minus_divide)
    also have "\<dots> \<le> (\<bar>x\<bar> + 1 / 2 ^ 1022) / 2 ^ 53"
      by (intro divide_right_mono) simp_all
    finally show ?thesis .
  qed
  with err have bound: "\<bar>r - x\<bar> \<le> (\<bar>x\<bar> + 1 / 2 ^ 1022) / 2 ^ 53" by (rule order_trans)
  have "(\<bar>x\<bar> + 1 / 2 ^ 1022) / 2 ^ 53 \<le> (2 ^ 1000 + 1) / (1::rat)"
    using assms by (intro frac_le) simp_all
  with bound have "\<bar>r - x\<bar> \<le> 2 ^ 1000 + 1" by simp
  then have "\<bar>r\<bar> \<le> \<bar>x\<bar> + (2 ^ 1000 + 1)" by linarith
  with assms have "\<bar>r\<bar> \<le> 2 ^ 1000 + (2 ^ 1000 + 1)" by linarith
  also have "\<dots> < (2::rat) ^ 1024" by simp
  finally have "\<not> 2 ^ 1024 \<le> \<bar>r\<bar>" by simp
  with False have "toDouble x = Some r"
    by (simp add: toDouble_def Let_def r_def y_def e_def t_def)
  with bound show ?thesis by blast
qed

lemma product_err:
  assumes s: "\<bar>s\<bar> < 2 ^ 53" and c: "\<bar>c\<bar> < 2 ^ 53"
  shows "\<exists>v. dmul (toDouble (of_int s)) (toDouble c) = Some v
           \<and> \<bar>v - of_int s * c\<bar> \<le> (3 * \<bar>of_int s * c\<bar> + 3) / 2 ^ 53"
proof -
  define u :: rat where "u = 1 / 2 ^ 53"
  define g :: rat where "g = 1 / 2 ^ 1022"
  define a :: rat where "a = \<bar>of_int s\<bar>"
  define w :: rat where "w = \<bar>of_int s * c\<bar>"
  have u: "0 < u" "u \<le> 1" by (simp_all add: u_def)
  have g: "0 < g" "g \<le> 1" by (simp_all add: g_def)
  have "(of_int \<bar>s\<bar> :: rat) < of_int (2 ^ 53)"
    using s by (simp only: of_int_less_iff)
  then have a: "0 \<le> a" "a < 2 ^ 53" by (simp_all add: a_def)
  have ag: "a * g \<le> 1"
  proof -
    have "a * g \<le> 2 ^ 53 * (1 / 2 ^ 1022)"
      unfolding g_def using a by (intro mult_right_mono) simp_all
    also have "\<dots> \<le> (1::rat)" by simp
    finally show ?thesis .
  qed
  have w: "0 \<le> w" "w = a * \<bar>c\<bar>" by (simp_all add: w_def a_def abs_mult)
  have "\<bar>c\<bar> \<le> 2 ^ 1000"
  proof -
    have "(2::rat) ^ 53 \<le> 2 ^ 1000" by (rule power_increasing) simp_all
    with c show ?thesis by simp
  qed
  from toDouble_err [OF this] obtain c' where
    c': "toDouble c = Some c'" "\<bar>c' - c\<bar> \<le> (\<bar>c\<bar> + g) * u"
    by (auto simp: u_def g_def)
  have s': "toDouble (of_int s) = Some (of_int s)"
    using s by (rule toDouble_int)
  have d1: "\<bar>of_int s * c' - of_int s * c\<bar> \<le> (w + 1) * u"
  proof -
    have "\<bar>of_int s * c' - of_int s * c\<bar> = a * \<bar>c' - c\<bar>"
      by (simp add: a_def abs_mult flip: right_diff_distrib)
    also have "\<dots> \<le> a * ((\<bar>c\<bar> + g) * u)"
      using c'(2) a(1) by (rule mult_left_mono)
    also have "\<dots> = (w + a * g) * u"
      by (simp add: w(2) algebra_simps)
    also have "\<dots> \<le> (w + 1) * u"
      using ag u(1) by (intro mult_right_mono) simp_all
    finally show ?thesis .
  qed
  have wu: "(w + 1) * u \<le> w + 1"
    using w(1) u by (simp add: mult_left_le)
  from d1 have sc': "\<bar>of_int s * c'\<bar> \<le> w + (w + 1) * u"
    unfolding w_def by linarith
  with wu have sc'2: "\<bar>of_int s * c'\<bar> \<le> 2 * w + 1" by linarith
  have "\<bar>of_int s * c'\<bar> \<le> 2 ^ 1000"
  proof -
    have "\<bar>c'\<bar> \<le> \<bar>c\<bar> + (\<bar>c\<bar> + g) * u" using c'(2) by linarith
    also have "\<dots> \<le> \<bar>c\<bar> + (\<bar>c\<bar> + g)"
      using u g by (simp add: mult_left_le)
    also have "\<dots> \<le> 2 ^ 53 + (2 ^ 53 + 1)" using c g by linarith
    also have "\<dots> \<le> (2::rat) ^ 55" by simp
    finally have "\<bar>c'\<bar> \<le> 2 ^ 55" .
    then have "a * \<bar>c'\<bar> \<le> 2 ^ 53 * 2 ^ 55"
      using a by (intro mult_mono) simp_all
    also have "\<dots> \<le> (2::rat) ^ 1000" by simp
    finally show ?thesis by (simp add: a_def abs_mult)
  qed
  from toDouble_err [OF this] obtain v where
    v: "toDouble (of_int s * c') = Some v"
       "\<bar>v - of_int s * c'\<bar> \<le> (\<bar>of_int s * c'\<bar> + g) * u"
    by (auto simp: u_def g_def)
  have d2: "\<bar>v - of_int s * c'\<bar> \<le> (2 * w + 2) * u"
  proof -
    have "\<bar>of_int s * c'\<bar> + g \<le> 2 * w + 2" using sc'2 g by linarith
    then have "(\<bar>of_int s * c'\<bar> + g) * u \<le> (2 * w + 2) * u"
      using u(1) by (intro mult_right_mono) simp_all
    with v(2) show ?thesis by linarith
  qed
  have "\<bar>v - of_int s * c\<bar> \<le> \<bar>v - of_int s * c'\<bar> + \<bar>of_int s * c' - of_int s * c\<bar>"
    by linarith
  also have "\<dots> \<le> (2 * w + 2) * u + (w + 1) * u"
    using d1 d2 by linarith
  also have "\<dots> = (3 * w + 3) * u" by (simp add: algebra_simps)
  finally have "\<bar>v - of_int s * c\<bar> \<le> (3 * \<bar>of_int s * c\<bar> + 3) / 2 ^ 53"
    by (simp add: u_def w_def)
  moreover have "dmul (toDouble (of_int s)) (toDouble c) = Some v"
    by (simp add: dmul_def s' c' v(1))
  ultimately show ?thesis by blast
qed

lemma totalValue_err:
  assumes "length ps \<le> 10000"
    and "\<forall>p\<in>set ps. \<bar>current_stock p\<bar> < 2 ^ 53 \<and> \<bar>cost_price p\<bar> < 2 ^ 53"
    and "(\<Sum>p\<leftarrow>ps. \<bar>of_int (current_stock p) * cost_price p\<bar>) \<le> 10 ^ 9"
  shows "\<exists>v. totalValue ps = Some v
           \<and> \<bar>v - (\<Sum>p\<leftarrow>ps. of_int (current_stock p) * cost_price p)\<bar>
               \<le> of_nat (length ps) * ((4 * 10 ^ 9 + 5) / 2 ^ 53)"
  using assms
proof (induction ps rule: rev_induct)
  case Nil
  show ?case by (simp add: totalValue_def)
next
  case (snoc p ps)
  define u :: rat where "u = 1 / 2 ^ 53"
  define b :: rat where "b = (4 * 10 ^ 9 + 5) / 2 ^ 53"
  let ?x = "of_int (current_stock p) * cost_price p"
  let ?S = "\<Sum>p\<leftarrow>ps. of_int (current_stock p) * cost_price p"
  let ?A = "\<Sum>p\<leftarrow>ps. \<bar>of_int (current_stock p) * cost_price p\<bar>"
  define i :: rat where "i = of_nat (length ps)"
  have u: "0 < u" by (simp add: u_def)
  have b0: "0 \<le> b" by (simp add: b_def)
  have A0: "0 \<le> ?A" by (rule sum_list_nonneg) auto
  from snoc.prems(3) have tot: "?A + \<bar>?x\<bar> \<le> 10 ^ 9" by simp
  from snoc.prems(1) have len: "length ps \<le> 10000" by simp
  from snoc.prems(2) have fs: "\<forall>p\<in>set ps. \<bar>current_stock p\<bar> < 2 ^ 53 \<and> \<bar>cost_price p\<bar> < 2 ^ 53"
    by simp
  from tot have totps: "?A \<le> 10 ^ 9" by linarith
  from snoc.IH [OF len fs totps] obtain r where
    r: "totalValue ps = Some r" "\<bar>r - ?S\<bar> \<le> i * b"
    by (auto simp: i_def b_def)
  have "i \<le> 10000" using len by (simp add: i_def)
  then have "i * b \<le> 10000 * b" using b0 by (rule mult_right_mono)
  also have "\<dots> \<le> 1 / 200" by (simp add: b_def)
  finally have ib: "i * b \<le> 1 / 200" .
  from snoc.prems(2) have p: "\<bar>current_stock p\<bar> < 2 ^ 53" "\<bar>cost_price p\<bar> < 2 ^ 53"
    by simp_all
  from product_err [OF p] obtain v where
    v: "dmul (toDouble (of_int (current_stock p))) (toDouble (cost_price p)) = Some v"
       "\<bar>v - ?x\<bar> \<le> (3 * \<bar>?x\<bar> + 3) * u"
    by (auto simp: u_def)
  from tot A0 have x9: "\<bar>?x\<bar> \<le> 10 ^ 9" by linarith
  then have "(3 * \<bar>?x\<bar> + 3) * u \<le> (3 * 10 ^ 9 + 3) * u"
    using u by (intro mult_right_mono) simp_all
  with v(2) have vx: "\<bar>v - ?x\<bar> \<le> (3 * 10 ^ 9 + 3) * u" by linarith
  have small: "(3 * 10 ^ 9 + 3) * u \<le> 1 / 2" by (simp add: u_def)
  have SA: "\<bar>?S\<bar> \<le> ?A"
    using sum_list_abs [of "map (\<lambda>p. of_int (current_stock p) * cost_price p) ps"]
    by (simp add: comp_def)
  have z: "\<bar>r + v\<bar> \<le> 10 ^ 9 + 1"
    using r(2) ib vx small SA tot by linarith
  have "\<bar>r + v\<bar> \<le> 2 ^ 1000"
  proof -
    have "(10::rat) ^ 9 + 1 \<le> 2 ^ 53" by simp
    also have "\<dots> \<le> (2::rat) ^ 1000" by (rule power_increasing) simp_all
    finally show ?thesis using z by linarith
  qed
  from toDouble_err [OF this] obtain r' where
    r': "toDouble (r + v) = Some r'" "\<bar>r' - (r + v)\<bar> \<le> (\<bar>r + v\<bar> + 1 / 2 ^ 1022) * u"
    by (auto simp: u_def)
  have "\<bar>r + v\<bar> + 1 / 2 ^ 1022 \<le> 10 ^ 9 + 2"
  proof -
    have "(1::rat) / 2 ^ 1022 \<le> 1" by simp
    with z show ?thesis by linarith
  qed
  then have "(\<bar>r + v\<bar> + 1 / 2 ^ 1022) * u \<le> (10 ^ 9 + 2) * u"
    using u by (intro mult_right_mono) simp_all
  with r'(2) have rz: "\<bar>r' - (r + v)\<bar> \<le> (10 ^ 9 + 2) * u" by linarith
  have bu: "(10 ^ 9 + 2) * u + (3 * 10 ^ 9 + 3) * u = b"
    by (simp add: u_def b_def)
  have "\<bar>r' - (?S + ?x)\<bar> \<le> \<bar>r' - (r + v)\<bar> + \<bar>r - ?S\<bar> + \<bar>v - ?x\<bar>"
    by linarith
  also have "\<dots> \<le> (10 ^ 9 + 2) * u + i * b + (3 * 10 ^ 9 + 3) * u"
    using rz r(2) vx by linarith
  also have "\<dots> = (i + 1) * b"
    using bu by (simp add: algebra_simps)
  finally have err: "\<bar>r' - (?S + ?x)\<bar> \<le> (i + 1) * b" .
  have "totalValue (ps @ [p]) = Some r'"
    by (simp add: totalValue_snoc r(1) v(1) dadd_def r'(1))
  with err show ?case
    by (simp add: i_def b_def)
qed

lemma round_cents:
  fixes v x :: rat
  assumes "\<bar>v - x\<bar> < 1 / 200" and "x * 100 \<in> \<int>"
  shows "of_int (round (v * 100)) / 100 = x"
proof -
  from assms(2) obtain z where z: "x * 100 = of_int z" by (auto elim: Ints_cases)
  from assms(1) have "\<bar>v * 100 - x * 100\<bar> < 1 / 2" by linarith
  then have d: "\<bar>v * 100 - of_int z\<bar> < 1 / 2" by (simp only: z)
  have "round (v * 100) = z"
  proof (rule round_unique)
    from d show "v * 100 - 1 / 2 < of_int z" by linarith
    from d show "of_int z \<le> v * 100 + 1 / 2" by linarith
  qed
  then have "of_int (round (v * 100)) / 100 = x * 100 / 100" by (simp add: z)
  then show ?thesis by simp
qed

text \<open>
  Claim C3, amended: for every catalog of at most 10,000 products whose stocks and cost
  prices are below 2^53 in absolute value and whose sum of |current_stock * cost_price|
  is at most 10^9, the total inventory value, computed in binary64 numbers from left
  to right, is a finite number that differs from the exact sum of
  current_stock * cost_price by less than half a cent; so, when the exact sum is a
  whole number of cents, the total rounded to the cent is the exact sum.
\<close>

theorem totalValue_cent:
  assumes "length ps \<le> 10000"
    and "\<forall>p\<in>set ps. \<bar>current_stock p\<bar> < 2 ^ 53 \<and> \<bar>cost_price p\<bar> < 2 ^ 53"
    and "(\<Sum>p\<leftarrow>ps. \<bar>of_int (current_stock p) * cost_price p\<bar>) \<le> 10 ^ 9"
  shows "\<exists>v. totalValue ps = Some v
           \<and> \<bar>v - (\<Sum>p\<leftarrow>ps. of_int (current_stock p) * cost_price p)\<bar> < 1 / 200
           \<and> ((\<Sum>p\<leftarrow>ps. of_int (current_stock p) * cost_price p) * 100 \<in> \<int> \<longrightarrow>
                of_int (round (v * 100)) / 100 =
                  (\<Sum>p\<leftarrow>ps. of_int (current_stock p) * cost_price p))"
proof -
  let ?S = "\<Sum>p\<leftarrow>ps. of_int (current_stock p) * cost_price p"
  from totalValue_err [OF assms] obtain v where
    v: "totalValue ps = Some v" "\<bar>v - ?S\<bar> \<le> of_nat (length ps) * ((4 * 10 ^ 9 + 5) / 2 ^ 53)"
    by blast
  have "(of_nat (length ps) :: rat) \<le> 10000" using assms(1) by simp
  then have "of_nat (length ps) * ((4 * 10 ^ 9 + 5) / 2 ^ 53)
      \<le> 10000 * ((4 * 10 ^ 9 + 5) / (2 ^ 53 :: rat))"
    by (rule mult_right_mono) simp
  also have "\<dots> < 1 / 200" by simp
  finally have "\<bar>v - ?S\<bar> < 1 / 200" using v(2) by linarith
  with v(1) round_cents [of v ?S] show ?thesis by blast
qed

text \<open>A catalog with prices in cents that are not binary fractions, and the first three
  default products, the scenario of the specification, whose total is exact.\<close>

theorem totalValue_cent_witness:
  "length centCatalog \<le> 10000
   \<and> list_all (\<lambda>p. \<bar>current_stock p\<bar> < 2 ^ 53 \<and> \<bar>cost_price p\<bar> < 2 ^ 53) centCatalog
   \<and> sum_list (map (\<lambda>p. \<bar>of_int (current_stock p) * cost_price p\<bar>) centCatalog) \<le> (10 ^ 9 :: rat)
   \<and> sum_list (map (\<lambda>p. of_int (current_stock p) * cost_price p) centCatalog) = (17523 / 100 :: rat)
   \<and> (\<exists>v. totalValue centCatalog = Some v \<and> \<bar>v - 17523 / 100\<bar> < 1 / 200
          \<and> of_int (round (v * 100)) / 100 = (17523 / 100 :: rat))
   \<and> totalValue (take 3 defaultProducts) = Some (705 / 2)"
proof -
  have len: "length centCatalog \<le> 10000"
    by (simp add: centCatalog_def)
  have fs: "\<forall>p\<in>set centCatalog. \<bar>current_stock p\<bar> < 2 ^ 53 \<and> \<bar>cost_price p\<bar> < 2 ^ 53"
    by (simp add: centCatalog_def sample_def)
  have tot: "sum_list (map (\<lambda>p. \<bar>of_int (current_stock p) * cost_price p\<bar>) centCatalog)
      \<le> (10 ^ 9 :: rat)"
    by (simp add: centCatalog_def sample_def)
  have ex: "sum_list (map (\<lambda>p. of_int (current_stock p) * cost_price p) centCatalog)
      = (17523 / 100 :: rat)"
    by (simp add: centCatalog_def sample_def)
  from totalValue_cent [OF len fs tot]
  have c: "\<exists>v. totalValue centCatalog = Some v \<and> \<bar>v - 17523 / 100\<bar> < 1 / 200
      \<and> of_int (round (v * 100)) / 100 = (17523 / 100 :: rat)"
    by (simp add: ex)
  have pr3: "\<forall>p\<in>set (take 3 defaultProducts). cost_price p * 2 ^ 1 \<in> \<int>
      \<and> \<bar>cost_price p\<bar> * 2 ^ 1 < 2 ^ 53 \<and> \<bar>current_stock p\<bar> < 2 ^ 53"
    by (simp add: defaultProducts_def sample_def)
  have tot3: "sum_list (map (\<lambda>p. \<bar>of_int (current_stock p) * cost_price p\<bar>)
      (take 3 defaultProducts)) * 2 ^ 1 < (2 ^ 53 :: rat)"
    by (simp add: defaultProducts_def sample_def)
  have d: "totalValue (take 3 defaultProducts) = Some (705 / 2)"
    using totalValue_exact [of 1 "take 3 defaultProducts", OF _ pr3 tot3]
    by (simp add: defaultProducts_def sample_def)
  from len fs tot ex c d show ?thesis
    by (simp add: list_all_iff)
qed

end
